theory Spec2Isabelle
  imports Complex_Main "HOL-Library.Multiset" "HOL-Library.Char_ord" "HOL-Library.List_Lexorder"
begin

section \<open>Data model: cells, frames, errors\<close>

text \<open>
  The program (app.py) is a Flask application over pandas DataFrames. A DataFrame is
  modelled as its column labels together with its rows, each row being the list of the
  cells under those labels. A cell is a missing value (\<open>NA\<close>: NaN or None), a missing
  timestamp (\<open>NaT\<close>), a text, a number (floats are idealised as reals) or a parsed
  timestamp.
\<close>

datatype cell = NA | NaT | Str string | Num real | Ts int

record frame =
  columns :: "string list"
  rows :: "cell list list"

datatype error = IOError | ParserError | KeyError | ValueError | TypeError | IndexError

text \<open>Sequencing of computations that may raise: the first exception ends the run.\<close>

definition seq :: "error + 'a \<Rightarrow> ('a \<Rightarrow> error + 'b) \<Rightarrow> error + 'b" where
  "seq m f = (case m of Inl e \<Rightarrow> Inl e | Inr x \<Rightarrow> f x)"

text \<open>\<open>pd.isna\<close> / \<open>pd.notna\<close> on a scalar.\<close>

fun isna :: "cell \<Rightarrow> bool" where
  "isna NA = True"
| "isna NaT = True"
| "isna _ = False"

definition notna :: "cell \<Rightarrow> bool" where
  "notna c = (\<not> isna c)"

text \<open>
  What lies outside app.py is a parameter of the model: the file system seen through
  \<open>pd.read_csv\<close>, numpy's seeded generator, and the library routines whose values no
  line of app.py inspects.
  \<^item> \<open>read_csv p\<close>: the frame read from path \<open>p\<close>, or the exception raised.
  \<^item> \<open>choice n k\<close>: the positions returned by
    \<open>RandomState(42).choice(n, size=k, replace=False)\<close>.
  \<^item> \<open>to_datetime col c\<close>: the timestamp \<open>pd.to_datetime\<close> gives cell \<open>c\<close> when converting
    column \<open>col\<close> (the format is inferred per column), \<open>None\<close> if \<open>c\<close> does not parse.
  \<^item> \<open>day_name\<close>, \<open>hour\<close>: the \<open>.dt\<close> accessors, cell by cell.
  \<^item> \<open>categories col\<close>: the category index \<open>astype('category')\<close> builds for a column.
  \<^item> \<open>float_of_str\<close>: Python's \<open>float(s)\<close>, \<open>None\<close> where it raises ValueError.
  \<^item> \<open>argsort keys\<close>: numpy's \<open>argsort\<close> (quicksort) of a column without missing
    values; the order among equal keys is the library's choice.
  \<^item> \<open>series_mean col\<close>: \<open>Series.mean()\<close> of a column, or the exception it raises.
  \<^item> \<open>describe df\<close>: the markup of \<open>df.describe(include='all').to_html(...)\<close>, or the
    exception it raises.
  \<^item> \<open>corr_takes col\<close>: whether \<open>DataFrame.corr()\<close> correlates a column. Which columns it
    takes depends on the pandas release: the numeric ones before 2.0, all of them from
    2.0 on, where a text column makes the conversion to floats raise.
  \<^item> \<open>corr_float c\<close>: the double a cell contributes to the correlation, \<open>None\<close> for NaN.
  \<^item> \<open>fp_corr obs\<close>: the double (\<open>None\<close> for NaN) that pandas' loop over the paired
    observations \<open>obs\<close> arrives at in IEEE arithmetic when neither column is constant:
    close to the exact coefficient, NaN when a sum overflows.
\<close>

record world =
  read_csv :: "string \<Rightarrow> error + frame"
  choice :: "nat \<Rightarrow> nat \<Rightarrow> nat list"
  to_datetime :: "cell list \<Rightarrow> cell \<Rightarrow> cell option"
  day_name :: "cell \<Rightarrow> cell"
  hour :: "cell \<Rightarrow> cell"
  categories :: "cell list \<Rightarrow> cell list"
  float_of_str :: "string \<Rightarrow> real option"
  argsort :: "cell list \<Rightarrow> nat list"
  series_mean :: "cell list \<Rightarrow> error + cell"
  describe :: "frame \<Rightarrow> error + string"
  corr_takes :: "cell list \<Rightarrow> error + bool"
  corr_float :: "cell \<Rightarrow> real option"
  fp_corr :: "(real \<times> real) list \<Rightarrow> real option"

section \<open>The pandas operations app.py calls\<close>

text \<open>Position of the first column carrying a label (of the first equal entry of a list).\<close>

fun col_index :: "'a list \<Rightarrow> 'a \<Rightarrow> nat option" where
  "col_index [] c = None"
| "col_index (x # xs) c = (if x = c then Some 0 else map_option Suc (col_index xs c))"

definition cell_at :: "cell list \<Rightarrow> nat \<Rightarrow> cell" where
  "cell_at r j = (if j < length r then r ! j else NA)"

text \<open>\<open>df[name]\<close>: the column's cells, KeyError when no column has the label.\<close>

definition column_at :: "frame \<Rightarrow> nat \<Rightarrow> cell list" where
  "column_at df j = map (\<lambda>r. cell_at r j) (rows df)"

definition get_col :: "frame \<Rightarrow> string \<Rightarrow> error + cell list" where
  "get_col df name =
     (case col_index (columns df) name of
        None \<Rightarrow> Inl KeyError
      | Some j \<Rightarrow> Inr (column_at df j))"

text \<open>\<open>row[name]\<close> on a row yielded by \<open>iterrows\<close>.\<close>

definition row_get :: "string list \<Rightarrow> cell list \<Rightarrow> string \<Rightarrow> error + cell" where
  "row_get cols r name =
     (case col_index cols name of
        None \<Rightarrow> Inl KeyError
      | Some j \<Rightarrow> Inr (cell_at r j))"

text \<open>
  \<open>df[name] = values\<close>: replaces the column when the label exists, appends it otherwise.
  The values are always derived cell by cell from a column of the same frame.
\<close>

definition set_col :: "frame \<Rightarrow> string \<Rightarrow> cell list \<Rightarrow> frame" where
  "set_col df name vals =
     (case col_index (columns df) name of
        Some j \<Rightarrow> df\<lparr>rows := map (\<lambda>(r, v). r[j := v]) (zip (rows df) vals)\<rparr>
      | None \<Rightarrow> df\<lparr>columns := columns df @ [name],
                    rows := map (\<lambda>(r, v). r @ [v]) (zip (rows df) vals)\<rparr>)"

text \<open>
  \<open>df.drop([name], axis=1)\<close>: every column carrying the label goes; KeyError when none
  does.
\<close>

definition drop_col :: "frame \<Rightarrow> string \<Rightarrow> error + frame" where
  "drop_col df name =
     (if name \<notin> set (columns df) then Inl KeyError
      else let js = filter (\<lambda>j. columns df ! j \<noteq> name) [0..<length (columns df)]
           in Inr \<lparr>columns = map (\<lambda>j. columns df ! j) js,
                   rows = map (\<lambda>r. map (cell_at r) js) (rows df)\<rparr>)"

text \<open>
  \<open>pd.concat([a, b], axis=0)\<close>: the columns are those of \<open>a\<close> followed by the new ones
  of \<open>b\<close>; every row is laid out under them, NaN where its frame lacks the column.
\<close>

definition reindex_row :: "string list \<Rightarrow> string list \<Rightarrow> cell list \<Rightarrow> cell list" where
  "reindex_row cols target r =
     map (\<lambda>c. case col_index cols c of None \<Rightarrow> NA | Some j \<Rightarrow> cell_at r j) target"

definition pd_concat :: "frame \<Rightarrow> frame \<Rightarrow> frame" where
  "pd_concat a b =
     (let u = columns a @ filter (\<lambda>c. c \<notin> set (columns a)) (columns b)
      in \<lparr>columns = u,
          rows = map (reindex_row (columns a) u) (rows a)
               @ map (reindex_row (columns b) u) (rows b)\<rparr>)"

text \<open>\<open>df.drop_duplicates()\<close>: of equal rows the first is kept.\<close>

fun keep_first :: "'a list \<Rightarrow> 'a list \<Rightarrow> 'a list" where
  "keep_first seen [] = []"
| "keep_first seen (x # xs) =
     (if x \<in> set seen then keep_first seen xs else x # keep_first (x # seen) xs)"

definition drop_duplicates :: "frame \<Rightarrow> frame" where
  "drop_duplicates df = df\<lparr>rows := keep_first [] (rows df)\<rparr>"

text \<open>\<open>df.dropna()\<close>: rows with a missing value in any column are removed.\<close>

definition dropna :: "frame \<Rightarrow> frame" where
  "dropna df = df\<lparr>rows := filter (\<lambda>r. \<not> list_ex isna r) (rows df)\<rparr>"

text \<open>
  \<open>df.sample(frac=0.01, random_state=42)\<close>: pandas takes \<open>round(0.01 * n)\<close> rows, Python's
  \<open>round\<close> going to the even neighbour at a tie; the double product is a tie exactly when
  \<open>n mod 100 = 50\<close>. The positions come from the seeded generator, and \<open>take\<close> raises
  IndexError on a position out of range.
\<close>

definition sample_size :: "nat \<Rightarrow> nat" where
  "sample_size n =
     (let q = n div 100; r = n mod 100
      in if r < 50 then q else if 50 < r then q + 1 else if even q then q else q + 1)"

definition take_rows :: "frame \<Rightarrow> nat list \<Rightarrow> error + frame" where
  "take_rows df idx =
     (if list_all (\<lambda>i. i < length (rows df)) idx
      then Inr (df\<lparr>rows := map (\<lambda>i. rows df ! i) idx\<rparr>)
      else Inl IndexError)"

definition pd_sample :: "world \<Rightarrow> frame \<Rightarrow> error + frame" where
  "pd_sample w df =
     (let n = length (rows df) in take_rows df (choice w n (sample_size n)))"

text \<open>
  \<open>df.sort_values(by=name)\<close>: missing keys go last; the others are ordered by numpy's
  \<open>argsort\<close>. Python compares text with text and numbers with numbers; a column mixing
  them raises TypeError.
\<close>

fun is_str :: "cell \<Rightarrow> bool" where
  "is_str (Str s) = True"
| "is_str _ = False"

fun is_num :: "cell \<Rightarrow> bool" where
  "is_num (Num x) = True"
| "is_num _ = False"

fun is_ts :: "cell \<Rightarrow> bool" where
  "is_ts (Ts t) = True"
| "is_ts _ = False"

definition comparable :: "cell list \<Rightarrow> bool" where
  "comparable ks = (list_all is_str ks \<or> list_all is_num ks \<or> list_all is_ts ks)"

definition sort_values :: "world \<Rightarrow> frame \<Rightarrow> string \<Rightarrow> error + frame" where
  "sort_values w df name =
     seq (get_col df name) (\<lambda>keys.
       let nn = filter (\<lambda>i. \<not> isna (keys ! i)) [0..<length keys];
           na = filter (\<lambda>i. isna (keys ! i)) [0..<length keys];
           ks = map (\<lambda>i. keys ! i) nn;
           p = argsort w ks
       in if \<not> comparable ks then Inl TypeError
          else if \<not> list_all (\<lambda>i. i < length nn) p then Inl IndexError
          else take_rows df (map (\<lambda>i. nn ! i) p @ na))"

text \<open>Running a conversion that may raise over a column, left to right.\<close>

fun traverse :: "('a \<Rightarrow> error + 'b) \<Rightarrow> 'a list \<Rightarrow> error + 'b list" where
  "traverse f [] = Inr []"
| "traverse f (x # xs) = seq (f x) (\<lambda>y. seq (traverse f xs) (\<lambda>ys. Inr (y # ys)))"

text \<open>\<open>series.astype(float)\<close>: numbers stay, text goes through \<open>float()\<close>.\<close>

fun to_float :: "world \<Rightarrow> cell \<Rightarrow> error + cell" where
  "to_float w NA = Inr NA"
| "to_float w NaT = Inl TypeError"
| "to_float w (Str s) =
     (case float_of_str w s of None \<Rightarrow> Inl ValueError | Some x \<Rightarrow> Inr (Num x))"
| "to_float w (Num x) = Inr (Num x)"
| "to_float w (Ts t) = Inl TypeError"

definition astype_float :: "world \<Rightarrow> cell list \<Rightarrow> error + cell list" where
  "astype_float w col = traverse (to_float w) col"

text \<open>
  \<open>pd.to_datetime(col)\<close> raises on a cell that does not parse;
  \<open>pd.to_datetime(col, errors='coerce')\<close> puts NaT there.
\<close>

definition to_datetime_raise :: "world \<Rightarrow> cell list \<Rightarrow> error + cell list" where
  "to_datetime_raise w col =
     traverse (\<lambda>c. case to_datetime w col c of None \<Rightarrow> Inl ValueError | Some t \<Rightarrow> Inr t) col"

definition to_datetime_coerce :: "world \<Rightarrow> cell list \<Rightarrow> cell list" where
  "to_datetime_coerce w col =
     map (\<lambda>c. case to_datetime w col c of None \<Rightarrow> NaT | Some t \<Rightarrow> t) col"

text \<open>
  \<open>col.astype('category').cat.codes\<close>: the position of each cell in the category index,
  \<open>-1\<close> for a cell that is not a category (a missing value).
\<close>

definition cat_codes :: "world \<Rightarrow> cell list \<Rightarrow> cell list" where
  "cat_codes w col =
     map (\<lambda>c. case col_index (categories w col) c of
                 None \<Rightarrow> Num (- 1)
               | Some i \<Rightarrow> Num (real i)) col"

text \<open>\<open>df[df[name].isin(values)]\<close>: the rows whose cell is one of the listed texts.\<close>

definition isin :: "cell \<Rightarrow> string list \<Rightarrow> bool" where
  "isin c vs = (case c of Str s \<Rightarrow> s \<in> set vs | _ \<Rightarrow> False)"

definition mask_rows :: "frame \<Rightarrow> bool list \<Rightarrow> frame" where
  "mask_rows df keep = df\<lparr>rows := map fst (filter snd (zip (rows df) keep))\<rparr>"

text \<open>
  \<open>df.corr()\<close>: Pearson correlation over the columns pandas takes, on the observations
  present in both columns of a pair. pandas computes the entry for each pair of columns
  once, from the later column and the earlier one, and stores it at both positions. It
  updates the running means and the sums of squared deviations observation by
  observation (Welford's method) in doubles; an entry is NaN (\<open>None\<close>) when there is no
  observation, and when the observations of one column are all equal: the running mean
  is then that value from the first observation on, every deviation is exactly zero and
  so is the divisor. In every other case the entry is what the double arithmetic
  arrives at, the parameter \<open>fp_corr\<close>.
\<close>

fun complete_pairs :: "(cell \<Rightarrow> real option) \<Rightarrow> cell list \<Rightarrow> cell list \<Rightarrow> (real \<times> real) list" where
  "complete_pairs f (x # xs) (y # ys) =
     (case (f x, f y) of
        (Some a, Some b) \<Rightarrow> (a, b) # complete_pairs f xs ys
      | _ \<Rightarrow> complete_pairs f xs ys)"
| "complete_pairs f _ _ = []"

definition all_equal :: "real list \<Rightarrow> bool" where
  "all_equal zs = (case zs of [] \<Rightarrow> True | z # _ \<Rightarrow> list_all (\<lambda>x. x = z) zs)"

definition pearson :: "world \<Rightarrow> cell list \<Rightarrow> cell list \<Rightarrow> real option" where
  "pearson w xs ys =
     (let ps = complete_pairs (corr_float w) xs ys
      in if length ps < 1 then None
         else if all_equal (map fst ps) \<or> all_equal (map snd ps) then None
         else fp_corr w ps)"

record cmatrix =
  cm_index :: "string list"
  cm_columns :: "string list"
  cm_values :: "real option list list"

text \<open>The positions of the columns \<open>corr\<close> takes; an exception where the conversion raises.\<close>

definition corr_positions :: "world \<Rightarrow> frame \<Rightarrow> error + nat list" where
  "corr_positions w df =
     seq (traverse (\<lambda>j. corr_takes w (column_at df j)) [0..<length (columns df)]) (\<lambda>flags.
       Inr (map fst (filter snd (zip [0..<length (columns df)] flags))))"

definition pd_corr :: "world \<Rightarrow> frame \<Rightarrow> error + cmatrix" where
  "pd_corr w df =
     seq (corr_positions w df) (\<lambda>js.
       let labs = map (\<lambda>j. columns df ! j) js;
           cols = map (column_at df) js;
           k = length js
       in Inr \<lparr>cm_index = labs, cm_columns = labs,
               cm_values = map (\<lambda>i. map (\<lambda>j. pearson w (cols ! max i j) (cols ! min i j))
                                          [0..<k]) [0..<k]\<rparr>)"



definition exact_pearson :: "(real \<times> real) list \<Rightarrow> real option" where
  "exact_pearson ps =
     (let n = length ps;
          mx = sum_list (map fst ps) / real n;
          my = sum_list (map snd ps) / real n;
          ssx = sum_list (map (\<lambda>(x, y). (x - mx) * (x - mx)) ps);
          ssy = sum_list (map (\<lambda>(x, y). (y - my) * (y - my)) ps);
          cxy = sum_list (map (\<lambda>(x, y). (x - mx) * (y - my)) ps);
          d = sqrt (ssx * ssy)
      in if n < 1 \<or> d = 0 then None else Some (cxy / d))"

text \<open>A frame is rectangular when every row has one cell per column.\<close>

definition rectangular :: "frame \<Rightarrow> bool" where
  "rectangular df = list_all (\<lambda>r. length r = length (columns df)) (rows df)"

section \<open>Speed categorisation\<close>

text \<open>
  A Python float is a finite number, an infinity or NaN; every comparison with NaN is
  false.
\<close>

datatype pyfloat = Fin real | PInf | NInf | NaN

fun flt :: "pyfloat \<Rightarrow> real \<Rightarrow> bool" where
  "flt (Fin x) c = (x < c)"
| "flt NInf c = True"
| "flt PInf c = False"
| "flt NaN c = False"

fun fle :: "real \<Rightarrow> pyfloat \<Rightarrow> bool" where
  "fle c (Fin x) = (c \<le> x)"
| "fle c PInf = True"
| "fle c NInf = False"
| "fle c NaN = False"

definition categorize_speed :: "pyfloat \<Rightarrow> string" where
  "categorize_speed speed =
     (if flt speed 60 then ''Low''
      else if fle 60 speed \<and> flt speed 80 then ''Medium''
      else ''High'')"

text \<open>The float held by a cell of a column that went through \<open>astype(float)\<close>.\<close>

fun float_of_cell :: "cell \<Rightarrow> pyfloat" where
  "float_of_cell (Num x) = Fin x"
| "float_of_cell _ = NaN"

section \<open>The request handlers\<close>

text \<open>
  A DataFrame is a mutable object: \<open>df[name] = values\<close> and \<open>drop(..., inplace=True)\<close>
  change the object a variable refers to, while \<open>copy\<close>, \<open>sort_values\<close> and boolean
  indexing create a new one. The handlers therefore run over a heap of frames, a
  variable holding an address. Each handler returns the address of the frame it got from
  \<open>load_data\<close>, the tables it hands to the chart constructors, and the final heap.

  Of the chart constructors (plotly express) the model keeps the check they start with:
  a column named in the call must be a column of the frame, or the call raises
  ValueError. Of \<open>value_counts\<close> and \<open>groupby\<close> it keeps the column reads, which raise
  KeyError on a missing column. The figures themselves, the counts, the trend line and
  \<open>jsonify\<close> are not modelled; they read their tables and change none.
\<close>

type_synonym heap = "frame list"

definition alloc :: "frame \<Rightarrow> heap \<Rightarrow> nat \<times> heap" where
  "alloc f h = (length h, h @ [f])"

definition assign :: "heap \<Rightarrow> nat \<Rightarrow> string \<Rightarrow> cell list \<Rightarrow> heap" where
  "assign h a name vals = h[a := set_col (h ! a) name vals]"

text \<open>One line \<open>df[dst] = f(df[src])\<close> on the object at address \<open>a\<close>.\<close>

definition derive ::
  "heap \<Rightarrow> nat \<Rightarrow> string \<Rightarrow> string \<Rightarrow> (cell list \<Rightarrow> error + cell list) \<Rightarrow> error + heap" where
  "derive h a src dst f =
     seq (get_col (h ! a) src) (\<lambda>col.
     seq (f col) (\<lambda>vals.
       Inr (assign h a dst vals)))"

text \<open>\<open>px.<chart>(df, x=..., y=..., color=...)\<close>: the named columns must exist.\<close>

definition px_requires :: "frame \<Rightarrow> string list \<Rightarrow> error + unit" where
  "px_requires df names =
     (if list_all (\<lambda>n. n \<in> set (columns df)) names then Inr () else Inl ValueError)"

text \<open>
  \<open>load_data\<close> (lines 12-22). The frames it builds on the way are temporaries that no
  variable keeps; the sampled frame is the object the caller receives.
\<close>

definition load_data :: "world \<Rightarrow> heap \<Rightarrow> error + nat \<times> heap" where
  "load_data w h =
     seq (read_csv w ''data/iraste_nxt_cas.csv'') (\<lambda>df.
     seq (read_csv w ''data/iraste_nxt_casdms.csv'') (\<lambda>df1.
       let df = pd_concat df df1;
           df = drop_duplicates df;
           df = dropna df
       in seq (pd_sample w df) (\<lambda>df. Inr (alloc df h))))"

text \<open>
  \<open>/spatial-analysis\<close> (lines 26-34): the density map over Lat and Long, centred on the
  two means. The result is the frame behind the map and the centre.
\<close>

definition spatial_analysis ::
  "world \<Rightarrow> heap \<Rightarrow> error + nat \<times> (frame \<times> cell \<times> cell) \<times> heap" where
  "spatial_analysis w h0 =
     seq (load_data w h0) (\<lambda>(df, h).
     seq (px_requires (h ! df) [''Lat'', ''Long'']) (\<lambda>_.
     seq (get_col (h ! df) ''Lat'') (\<lambda>lat.
     seq (series_mean w lat) (\<lambda>lat_mean.
     seq (get_col (h ! df) ''Long'') (\<lambda>long.
     seq (series_mean w long) (\<lambda>long_mean.
       Inr (df, (h ! df, lat_mean, long_mean), h)))))))"

text \<open>
  \<open>/alert-frequency\<close> (lines 38-64): four assignments on \<open>df\<close>, then three charts over it.
\<close>

definition alert_frequency :: "world \<Rightarrow> heap \<Rightarrow> error + nat \<times> frame \<times> heap" where
  "alert_frequency w h0 =
     seq (load_data w h0) (\<lambda>(df, h).
     seq (derive h df ''Date'' ''Date'' (to_datetime_raise w)) (\<lambda>h.
     seq (derive h df ''Date'' ''DayOfWeek'' (\<lambda>c. Inr (map (day_name w) c))) (\<lambda>h.
     seq (derive h df ''Time'' ''Time'' (\<lambda>c. Inr (to_datetime_coerce w c))) (\<lambda>h.
     seq (derive h df ''Speed'' ''Speed'' (astype_float w)) (\<lambda>h.
     seq (px_requires (h ! df) [''DayOfWeek'', ''Alert'']) (\<lambda>_.
     seq (px_requires (h ! df) [''Speed'', ''Alert'']) (\<lambda>_.
     seq (px_requires (h ! df) [''Time'', ''Speed'', ''Alert'']) (\<lambda>_.
       Inr (df, h ! df, h)))))))))"

text \<open>
  \<open>/speed-analysis\<close> (lines 68-102): the result is the frame \<open>df_sorted\<close> behind the three
  charts; the third chart is built from its groups by Speed_Category and Alert.
\<close>

definition speed_analysis :: "world \<Rightarrow> heap \<Rightarrow> error + nat \<times> frame \<times> heap" where
  "speed_analysis w h0 =
     seq (load_data w h0) (\<lambda>(df, h).
     seq (derive h df ''Speed'' ''Speed'' (astype_float w)) (\<lambda>h.
     seq (sort_values w (h ! df) ''Time'') (\<lambda>s.
       let (df_sorted, h) = alloc s h in
     seq (derive h df_sorted ''Time'' ''Time'' (\<lambda>c. Inr (to_datetime_coerce w c))) (\<lambda>h.
     seq (derive h df_sorted ''Speed'' ''Speed_Category''
            (\<lambda>c. Inr (map (\<lambda>v. Str (categorize_speed (float_of_cell v))) c))) (\<lambda>h.
     seq (px_requires (h ! df_sorted) [''Time'', ''Speed'', ''Alert'']) (\<lambda>_.
     seq (px_requires (h ! df_sorted) [''Speed'']) (\<lambda>_.
     seq (get_col (h ! df_sorted) ''Speed_Category'') (\<lambda>_.
     seq (get_col (h ! df_sorted) ''Alert'') (\<lambda>_.
       Inr (df, h ! df_sorted, h))))))))))"

text \<open>
  \<open>/correlation-analysis\<close> (lines 106-133). \<open>corr_prepare\<close> is lines 111-118, run on the
  copy \<open>df1\<close>; the handler then drops HourOfDay and correlates. The result is the
  correlation matrix together with the address of \<open>df1\<close>.
\<close>

definition corr_prepare :: "world \<Rightarrow> heap \<Rightarrow> nat \<Rightarrow> error + heap" where
  "corr_prepare w h df1 =
     seq (derive h df1 ''Alert'' ''Alert'' (\<lambda>c. Inr (cat_codes w c))) (\<lambda>h.
     seq (derive h df1 ''Date'' ''Date'' (to_datetime_raise w)) (\<lambda>h.
     seq (derive h df1 ''Date'' ''DayOfWeek'' (\<lambda>c. Inr (map (day_name w) c))) (\<lambda>h.
     seq (derive h df1 ''Date'' ''HourOfDay'' (\<lambda>c. Inr (map (hour w) c))) (\<lambda>h.
     seq (derive h df1 ''Date'' ''Date'' (\<lambda>c. Inr (cat_codes w c))) (\<lambda>h.
     seq (derive h df1 ''Time'' ''Time'' (\<lambda>c. Inr (to_datetime_coerce w c))) (\<lambda>h.
     seq (derive h df1 ''DayOfWeek'' ''DayOfWeek'' (\<lambda>c. Inr (cat_codes w c))) (\<lambda>h.
          derive h df1 ''HourOfDay'' ''HourOfDay'' (\<lambda>c. Inr (cat_codes w c)))))))))"

definition correlation_analysis ::
  "world \<Rightarrow> heap \<Rightarrow> error + nat \<times> (cmatrix \<times> nat) \<times> heap" where
  "correlation_analysis w h0 =
     seq (load_data w h0) (\<lambda>(df, h).
       let (df1, h) = alloc (h ! df) h in
     seq (corr_prepare w h df1) (\<lambda>h.
     seq (drop_col (h ! df1) ''HourOfDay'') (\<lambda>d.
       let h = h[df1 := d] in
     seq (pd_corr w (h ! df1)) (\<lambda>correlation_matrix.
       Inr (df, (correlation_matrix, df1), h)))))"

text \<open>\<open>/driver-behavior\<close> (lines 137-146): the Alert column goes to \<open>value_counts\<close>.\<close>

definition driver_behavior :: "world \<Rightarrow> heap \<Rightarrow> error + nat \<times> cell list \<times> heap" where
  "driver_behavior w h0 =
     seq (load_data w h0) (\<lambda>(df, h).
     seq (get_col (h ! df) ''Alert'') (\<lambda>alert.
       Inr (df, alert, h)))"

text \<open>
  \<open>/safety-impact\<close> (lines 150-166): the result is \<open>safety_df\<close>; the first chart is built
  from its groups by Speed, the second over its Alert and Speed columns.
\<close>

definition safety_impact :: "world \<Rightarrow> heap \<Rightarrow> error + nat \<times> frame \<times> heap" where
  "safety_impact w h0 =
     seq (load_data w h0) (\<lambda>(df, h).
     seq (get_col (h ! df) ''Alert'') (\<lambda>alert.
       let (safety_df, h) =
             alloc (mask_rows (h ! df)
                      (map (\<lambda>c. isin c [''cas_ldw'', ''cas_hmw'', ''hard_brake'',
                                          ''cas_pcw'', ''cas_fcw'']) alert)) h
       in
     seq (get_col (h ! safety_df) ''Speed'') (\<lambda>_.
     seq (get_col (h ! safety_df) ''Alert'') (\<lambda>_.
     seq (px_requires (h ! safety_df) [''Alert'', ''Speed'']) (\<lambda>_.
       Inr (df, h ! safety_df, h))))))"

text \<open>
  \<open>/safety_analysis\<close> (lines 170-196): the result is \<open>safety_df\<close>; the pie is built from
  the counts of its Alert column, the scatter from its groups by Speed.
\<close>

definition safety_alerts :: "string list" where
  "safety_alerts = [''cas_ldw'', ''cas_hmw'', ''hard_brake'', ''cas_pcw'', ''cas_fcw'']"

definition safety_analysis :: "world \<Rightarrow> heap \<Rightarrow> error + nat \<times> frame \<times> heap" where
  "safety_analysis w h0 =
     seq (load_data w h0) (\<lambda>(df, h).
     seq (get_col (h ! df) ''Alert'') (\<lambda>alert.
       let (safety_df, h) =
             alloc (mask_rows (h ! df) (map (\<lambda>c. isin c safety_alerts) alert)) h
       in
     seq (get_col (h ! safety_df) ''Alert'') (\<lambda>_.
     seq (get_col (h ! safety_df) ''Speed'') (\<lambda>_.
     seq (get_col (h ! safety_df) ''Alert'') (\<lambda>_.
       Inr (df, h ! safety_df, h))))))"

text \<open>
  \<open>/\<close> (lines 200-238): the summary, the density map and its centre, two assignments on
  \<open>df\<close>, the counts of DayOfWeek, the histogram of Speed and the \<open>locations\<close> list built
  from \<open>iterrows\<close>. The result is the summary, the frame behind the charts and the
  locations.
\<close>

definition location :: "string list \<Rightarrow> cell list \<Rightarrow> error + (string \<times> cell) list" where
  "location cols row =
     seq (row_get cols row ''Lat'') (\<lambda>lat.
     seq (row_get cols row ''Long'') (\<lambda>lng.
     seq (row_get cols row ''Alert'') (\<lambda>alert.
     seq (row_get cols row ''Date'') (\<lambda>date.
     seq (row_get cols row ''Time'') (\<lambda>time.
     seq (row_get cols row ''Vehicle'') (\<lambda>vehicle.
     seq (row_get cols row ''Speed'') (\<lambda>speed.
       Inr [(''lat'', lat), (''lng'', lng), (''alert'', alert), (''date'', date),
            (''time'', time), (''vehicle'', vehicle), (''speed'', speed)])))))))"

definition home ::
  "world \<Rightarrow> heap \<Rightarrow> error + nat \<times> (string \<times> frame \<times> (string \<times> cell) list list) \<times> heap" where
  "home w h0 =
     seq (load_data w h0) (\<lambda>(df, h).
     seq (describe w (h ! df)) (\<lambda>summary.
     seq (px_requires (h ! df) [''Lat'', ''Long'']) (\<lambda>_.
     seq (get_col (h ! df) ''Lat'') (\<lambda>lat.
     seq (series_mean w lat) (\<lambda>lat_mean.
     seq (get_col (h ! df) ''Long'') (\<lambda>long.
     seq (series_mean w long) (\<lambda>long_mean.
     seq (derive h df ''Date'' ''Date'' (to_datetime_raise w)) (\<lambda>h.
     seq (derive h df ''Date'' ''DayOfWeek'' (\<lambda>c. Inr (map (day_name w) c))) (\<lambda>h.
     seq (get_col (h ! df) ''DayOfWeek'') (\<lambda>_.
     seq (px_requires (h ! df) [''Speed'']) (\<lambda>_.
     seq (traverse (location (columns (h ! df))) (rows (h ! df))) (\<lambda>locations.
       Inr (df, (summary, h ! df, locations), h)))))))))))))"

text \<open>
  \<open>/data/coordinates\<close> (lines 242-256). A value of the emitted record is Python's
  \<open>None\<close> or a cell; the defaults are the empty text and the number zero.
\<close>

datatype pyval = PyNone | PyCell cell

definition field_or :: "string list \<Rightarrow> cell list \<Rightarrow> string \<Rightarrow> pyval \<Rightarrow> error + pyval" where
  "field_or cols row name dflt =
     seq (row_get cols row name) (\<lambda>c.
       if notna c then seq (row_get cols row name) (\<lambda>v. Inr (PyCell v)) else Inr dflt)"

definition coord_record :: "string list \<Rightarrow> cell list \<Rightarrow> error + (string \<times> pyval) list" where
  "coord_record cols row =
     seq (field_or cols row ''Alert'' (PyCell (Str ''''))) (\<lambda>alert.
     seq (field_or cols row ''Date'' (PyCell (Str ''''))) (\<lambda>date.
     seq (field_or cols row ''Time'' (PyCell (Str ''''))) (\<lambda>time.
     seq (field_or cols row ''Lat'' PyNone) (\<lambda>lat.
     seq (field_or cols row ''Long'' PyNone) (\<lambda>long.
     seq (field_or cols row ''Vehicle'' (PyCell (Str ''''))) (\<lambda>vehicle.
     seq (field_or cols row ''Speed'' (PyCell (Num 0))) (\<lambda>speed.
       Inr [(''alert'', alert), (''date'', date), (''time'', time), (''lat'', lat),
            (''long'', long), (''vehicle'', vehicle), (''speed'', speed)])))))))"

definition get_coordinates ::
  "world \<Rightarrow> heap \<Rightarrow> error + nat \<times> (string \<times> pyval) list list \<times> heap" where
  "get_coordinates w h0 =
     seq (load_data w h0) (\<lambda>(df, h).
     seq (traverse (coord_record (columns (h ! df))) (rows (h ! df))) (\<lambda>data.
       Inr (df, data, h)))"

section \<open>Example inputs\<close>

text \<open>
  A pair of files under the expected seven columns. The first file holds 150 distinct
  complete rows; the second repeats one of them and adds a row without a Time. After
  cleaning 150 rows remain, the sample has \<open>round(1.5) = 2\<close> rows, and the generator is
  taken to pick positions 107 and 3.
\<close>

definition schema :: "string list" where
  "schema = [''Alert'', ''Date'', ''Time'', ''Lat'', ''Long'', ''Vehicle'', ''Speed'']"

definition example_row :: "nat \<Rightarrow> cell list" where
  "example_row i =
     (if i = 3 then
        [Str ''cas_ldw'', Str ''2022-06-01'', Str ''9:30:00'', Num 12.5, Num 77.25,
         Num (real i), Num 85]
      else if i = 107 then
        [Str ''overspeed'', Str ''2022-06-01'', Str ''10:15:00'', Num 12.75, Num 77.5,
         Num (real i), Num 59.9]
      else
        [Str ''overspeed'', Str ''2022-06-03'', Str ''08:00:00'', Num 12, Num 77,
         Num (real i), Num 60])"

definition incomplete_row :: "cell list" where
  "incomplete_row =
     [Str ''overspeed'', Str ''2022-06-03'', NA, Num 12, Num 77, Num 150, Num 60]"


fun example_parse :: "cell \<Rightarrow> cell option" where
  "example_parse (Str s) =
     (if s = ''2022-06-01'' then Some (Ts 19144)
      else if s = ''9:30:00'' then Some (Ts 34200)
      else if s = ''10:15:00'' then Some (Ts 36900)
      else None)"
| "example_parse (Ts t) = Some (Ts t)"
| "example_parse (Num x) = None"
| "example_parse c = Some NaT"

fun text_of :: "cell \<Rightarrow> string" where
  "text_of (Str s) = s"
| "text_of c = []"

text \<open>
  In the example, \<open>corr\<close> takes the numeric columns (pandas before 2.0), a number
  contributes itself, the mean is that of the numbers of a column, and the double
  arithmetic is exact.
\<close>

fun number_of :: "cell \<Rightarrow> real option" where
  "number_of (Num x) = Some x"
| "number_of c = None"

definition example_mean :: "cell list \<Rightarrow> cell" where
  "example_mean col =
     (case List.map_filter number_of col of
        [] \<Rightarrow> NA
      | ns \<Rightarrow> Num (sum_list ns / real (length ns)))"

definition example_world :: world where
  "example_world = \<lparr>
     read_csv = (\<lambda>p.
       if p = ''data/iraste_nxt_cas.csv''
       then Inr \<lparr>columns = schema, rows = map example_row [0..<150]\<rparr>
       else if p = ''data/iraste_nxt_casdms.csv''
       then Inr \<lparr>columns = schema, rows = [example_row 0, incomplete_row]\<rparr>
       else Inl IOError),
     choice = (\<lambda>n k. if n = 150 \<and> k = 2 then [107, 3] else take k [0..<n]),
     to_datetime = (\<lambda>col. example_parse),
     day_name = (\<lambda>c. if c = Ts 19144 then Str ''Wednesday'' else NA),
     hour = (\<lambda>c. if is_ts c then Num 0 else NA),
     categories = (\<lambda>col.
       if col = [Str ''overspeed'', Str ''cas_ldw'']
       then [Str ''cas_ldw'', Str ''overspeed''] else remdups col),
     float_of_str = (\<lambda>s. None),
     argsort = (\<lambda>ks. sort_key (\<lambda>i. text_of (ks ! i)) [0..<length ks]),
     series_mean = (\<lambda>col. Inr (example_mean col)),
     describe = (\<lambda>df. Inr ''summary''),
     corr_takes = (\<lambda>col. Inr (list_all (\<lambda>c. is_num c \<or> c = NA) col)),
     corr_float = number_of,
     fp_corr = exact_pearson \<rparr>"

text \<open>Two one-row files whose columns have nothing in common.\<close>

definition disjoint_world :: world where
  "disjoint_world = example_world \<lparr>
     read_csv := (\<lambda>p.
       if p = ''data/iraste_nxt_cas.csv''
       then Inr \<lparr>columns = [''a''], rows = [[Num 1]]\<rparr>
       else if p = ''data/iraste_nxt_casdms.csv''
       then Inr \<lparr>columns = [''b''], rows = [[Num 2]]\<rparr>
       else Inl IOError) \<rparr>"

text \<open>
  The frame \<open>load_data\<close> returns in the first example, and the coded copy that
  \<open>/correlation-analysis\<close> correlates there.
\<close>

definition example_loaded :: frame where
  "example_loaded = \<lparr>columns = schema, rows = [example_row 107, example_row 3]\<rparr>"

definition example_coded :: frame where
  "example_coded =
     \<lparr>columns = [''Alert'', ''Date'', ''Time'', ''Lat'', ''Long'', ''Vehicle'', ''Speed'',
                 ''DayOfWeek''],
      rows = [[Num 1, Num 0, Ts 36900, Num 12.75, Num 77.5, Num 107, Num 59.9, Num 0],
              [Num 0, Num 0, Ts 34200, Num 12.5, Num 77.25, Num 3, Num 85, Num 0]]\<rparr>"

definition example_dated :: frame where
  "example_dated =
     \<lparr>columns = schema @ [''DayOfWeek''],
      rows = [[Str ''overspeed'', Ts 19144, Ts 36900, Num 12.75, Num 77.5, Num 107,
               Num 59.9, Str ''Wednesday''],
              [Str ''cas_ldw'', Ts 19144, Ts 34200, Num 12.5, Num 77.25, Num 3,
               Num 85, Str ''Wednesday'']]\<rparr>"

text \<open>
  The matrix \<open>corr\<close> builds from the coded copy: Time holds timestamps and is left out,
  and every entry is the coefficient of the later column against the earlier one.
\<close>

definition example_columns :: "cell list list" where
  "example_columns =
     [[Num 1, Num 0], [Num 0, Num 0], [Num 12.75, Num 12.5], [Num 77.5, Num 77.25],
      [Num 107, Num 3], [Num 59.9, Num 85], [Num 0, Num 0]]"

definition example_matrix :: cmatrix where
  "example_matrix =
     \<lparr>cm_index = [''Alert'', ''Date'', ''Lat'', ''Long'', ''Vehicle'', ''Speed'', ''DayOfWeek''],
      cm_columns = [''Alert'', ''Date'', ''Lat'', ''Long'', ''Vehicle'', ''Speed'', ''DayOfWeek''],
      cm_values =
        map (\<lambda>i. map (\<lambda>j. pearson example_world (example_columns ! max i j)
                                                    (example_columns ! min i j))
                     [0..<7]) [0..<7]\<rparr>"

text \<open>What \<open>/\<close>, \<open>/speed-analysis\<close> and \<open>/data/coordinates\<close> build in the first example.\<close>

definition example_home_frame :: frame where
  "example_home_frame =
     \<lparr>columns = schema @ [''DayOfWeek''],
      rows = [[Str ''overspeed'', Ts 19144, Str ''10:15:00'', Num 12.75, Num 77.5,
               Num 107, Num 59.9, Str ''Wednesday''],
              [Str ''cas_ldw'', Ts 19144, Str ''9:30:00'', Num 12.5, Num 77.25,
               Num 3, Num 85, Str ''Wednesday'']]\<rparr>"

definition example_locations :: "(string \<times> cell) list list" where
  "example_locations =
     [[(''lat'', Num 12.75), (''lng'', Num 77.5), (''alert'', Str ''overspeed''),
       (''date'', Ts 19144), (''time'', Str ''10:15:00''), (''vehicle'', Num 107),
       (''speed'', Num 59.9)],
      [(''lat'', Num 12.5), (''lng'', Num 77.25), (''alert'', Str ''cas_ldw''),
       (''date'', Ts 19144), (''time'', Str ''9:30:00''), (''vehicle'', Num 3),
       (''speed'', Num 85)]]"

definition example_sorted :: frame where
  "example_sorted =
     \<lparr>columns = schema @ [''Speed_Category''],
      rows = [[Str ''overspeed'', Str ''2022-06-01'', Ts 36900, Num 12.75, Num 77.5,
               Num 107, Num 59.9, Str ''Low''],
              [Str ''cas_ldw'', Str ''2022-06-01'', Ts 34200, Num 12.5, Num 77.25,
               Num 3, Num 85, Str ''High'']]\<rparr>"

definition example_records :: "(string \<times> pyval) list list" where
  "example_records =
     [[(''alert'', PyCell (Str ''overspeed'')), (''date'', PyCell (Str ''2022-06-01'')),
       (''time'', PyCell (Str ''10:15:00'')), (''lat'', PyCell (Num 12.75)),
       (''long'', PyCell (Num 77.5)), (''vehicle'', PyCell (Num 107)),
       (''speed'', PyCell (Num 59.9))],
      [(''alert'', PyCell (Str ''cas_ldw'')), (''date'', PyCell (Str ''2022-06-01'')),
       (''time'', PyCell (Str ''9:30:00'')), (''lat'', PyCell (Num 12.5)),
       (''long'', PyCell (Num 77.25)), (''vehicle'', PyCell (Num 3)),
       (''speed'', PyCell (Num 85))]]"

definition example_safety :: frame where
  "example_safety = \<lparr>columns = schema, rows = [example_row 3]\<rparr>"

section \<open>Basic facts\<close>

lemma seq_Inl [simp]: "seq (Inl e) f = Inl e"
  by (simp add: seq_def)

lemma seq_Inr [simp]: "seq (Inr x) f = f x"
  by (simp add: seq_def)

lemma seq_eq_Inr: "seq m f = Inr y \<longleftrightarrow> (\<exists>x. m = Inr x \<and> f x = Inr y)"
  by (cases m) simp_all

lemma col_index_Some: "col_index xs c = Some j \<Longrightarrow> j < length xs \<and> xs ! j = c"
proof (induction xs arbitrary: j)
  case Nil
  then show ?case by simp
next
  case (Cons x xs)
  then show ?case by (auto split: if_splits)
qed

lemma col_index_None: "col_index xs c = None \<longleftrightarrow> c \<notin> set xs"
  by (induction xs) auto

lemma col_index_nth:
  "distinct xs \<Longrightarrow> j < length xs \<Longrightarrow> col_index xs (xs ! j) = Some j"
proof (induction xs arbitrary: j)
  case Nil
  then show ?case by simp
next
  case (Cons x xs)
  show ?case
  proof (cases j)
    case 0
    then show ?thesis by simp
  next
    case (Suc k)
    with Cons.prems have "xs ! k \<noteq> x" and "k < length xs" and "distinct xs"
      by auto
    with Cons.IH [of k] Suc show ?thesis by auto
  qed
qed

section \<open>Speed categorisation: the three bands\<close>

text \<open>
  C2. \<open>categorize_speed\<close> labels a speed below 60 Low, a speed from 60 up to but not
  including 80 Medium, and a speed of 80 or more High; so 59.9 is Low, 60.0 and 79.9 are
  Medium and 80.0 is High. Every float, the infinities and NaN included, gets one of the
  three labels.
\<close>

theorem categorize_speed_bands:
  "(s < 60 \<longrightarrow> categorize_speed (Fin s) = ''Low'')
   \<and> (60 \<le> s \<and> s < 80 \<longrightarrow> categorize_speed (Fin s) = ''Medium'')
   \<and> (80 \<le> s \<longrightarrow> categorize_speed (Fin s) = ''High'')
   \<and> categorize_speed (Fin 59.9) = ''Low''
   \<and> categorize_speed (Fin 60.0) = ''Medium''
   \<and> categorize_speed (Fin 79.9) = ''Medium''
   \<and> categorize_speed (Fin 80.0) = ''High''
   \<and> categorize_speed x \<in> {''Low'', ''Medium'', ''High''}"
  by (simp add: categorize_speed_def)

theorem categorize_speed_bands_witness:
  "(50::real) < 60 \<and> categorize_speed (Fin 50) = ''Low''
   \<and> (60::real) \<le> 70 \<and> (70::real) < 80 \<and> categorize_speed (Fin 70) = ''Medium''
   \<and> (80::real) \<le> 90 \<and> categorize_speed (Fin 90) = ''High''"
  using categorize_speed_bands [of 50] categorize_speed_bands [of 70]
    categorize_speed_bands [of 90]
  by simp

section \<open>Facts about the pandas operations\<close>

lemma keep_first_set: "set (keep_first seen xs) = set xs - set seen"
  by (induction xs arbitrary: seen) auto

lemma keep_first_distinct: "distinct (keep_first seen xs)"
  by (induction xs arbitrary: seen) (auto simp: keep_first_set)

lemma keep_first_cong: "set seen = set seen' \<Longrightarrow> keep_first seen xs = keep_first seen' xs"
proof (induction xs arbitrary: seen seen')
  case Nil
  then show ?case by simp
next
  case (Cons x xs)
  have "keep_first (x # seen) xs = keep_first (x # seen') xs"
    by (rule Cons.IH) (simp add: Cons.prems)
  moreover have "keep_first seen xs = keep_first seen' xs"
    by (rule Cons.IH) (rule Cons.prems)
  ultimately show ?case using Cons.prems by simp
qed

lemma keep_first_append:
  "keep_first seen (xs @ ys) = keep_first seen xs @ keep_first (xs @ seen) ys"
proof (induction xs arbitrary: seen)
  case Nil
  then show ?case by simp
next
  case (Cons x xs)
  have a: "keep_first (xs @ x # seen) ys = keep_first (x # xs @ seen) ys"
    by (rule keep_first_cong) auto
  have b: "keep_first (xs @ seen) ys = keep_first (x # xs @ seen) ys" if "x \<in> set seen"
    by (rule keep_first_cong) (use that in auto)
  show ?case
  proof (cases "x \<in> set seen")
    case True
    then show ?thesis using Cons.IH [of seen] b by simp
  next
    case False
    then show ?thesis using Cons.IH [of "x # seen"] a by simp
  qed
qed

lemma keep_first_id: "distinct xs \<Longrightarrow> set xs \<inter> set seen = {} \<Longrightarrow> keep_first seen xs = xs"
  by (induction xs arbitrary: seen) auto

lemma reindex_row_same:
  assumes "distinct cols" "length r = length cols"
  shows "reindex_row cols cols r = r"
proof (rule nth_equalityI)
  show "length (reindex_row cols cols r) = length r"
    using assms by (simp add: reindex_row_def)
next
  fix i assume "i < length (reindex_row cols cols r)"
  then have i: "i < length cols" by (simp add: reindex_row_def)
  then show "reindex_row cols cols r ! i = r ! i"
    using assms by (simp add: reindex_row_def col_index_nth cell_at_def)
qed

lemma drop_duplicates_frame:
  "drop_duplicates \<lparr>columns = cs, rows = rs\<rparr> = \<lparr>columns = cs, rows = keep_first [] rs\<rparr>"
  by (simp add: drop_duplicates_def)

lemma dropna_frame:
  "dropna \<lparr>columns = cs, rows = rs\<rparr>
   = \<lparr>columns = cs, rows = filter (\<lambda>r. \<not> list_ex isna r) rs\<rparr>"
  by (simp add: dropna_def)

lemma take_rows_Inr:
  assumes "take_rows df idx = Inr L"
  shows "columns L = columns df" and "rows L = map (\<lambda>i. rows df ! i) idx"
    and "\<forall>i\<in>set idx. i < length (rows df)"
  using assms by (auto simp: take_rows_def list_all_iff split: if_splits)

lemma distinct_take:
  assumes "distinct xs" "distinct idx" "\<forall>i\<in>set idx. i < length xs"
  shows "distinct (map (\<lambda>i. xs ! i) idx)"
proof -
  have "inj_on (\<lambda>i. xs ! i) (set idx)"
    using assms(1,3) by (auto simp: inj_on_def nth_eq_iff_index_eq)
  with assms(2) show ?thesis by (simp add: distinct_map)
qed

lemma reindex_row_missing:
  assumes "c \<in> set target" and "c \<notin> set cols"
  shows "list_ex isna (reindex_row cols target r)"
proof -
  have "col_index cols c = None" using assms(2) by (simp add: col_index_None)
  then have "(case col_index cols c of None \<Rightarrow> NA | Some j \<Rightarrow> cell_at r j) = NA"
    by simp
  then have "NA \<in> set (reindex_row cols target r)"
    unfolding reindex_row_def set_map using assms(1) by (metis image_eqI)
  then show ?thesis
    unfolding list_ex_iff by (intro bexI [of _ NA]) simp_all
qed

lemma load_data_Inr:
  assumes "load_data w h = Inr (df, h')"
  obtains f1 f2 L where
    "read_csv w ''data/iraste_nxt_cas.csv'' = Inr f1"
    "read_csv w ''data/iraste_nxt_casdms.csv'' = Inr f2"
    "pd_sample w (dropna (drop_duplicates (pd_concat f1 f2))) = Inr L"
    "df = length h" "h' = h @ [L]"
  using assms unfolding load_data_def Let_def alloc_def seq_eq_Inr by auto

lemma load_data_nth:
  assumes "load_data w h = Inr (df, h')"
  shows "df = length h" and "length h' = Suc (length h)" and "\<forall>a<length h. h' ! a = h ! a"
proof -
  from load_data_Inr [OF assms] obtain L where h: "df = length h" "h' = h @ [L]"
    by blast
  show "df = length h" by (rule h(1))
  show "length h' = Suc (length h)" by (simp add: h(2))
  show "\<forall>a<length h. h' ! a = h ! a" by (simp add: h(2) nth_append)
qed

section \<open>The example run of \<open>load_data\<close>\<close>

lemma example_row_length: "length (example_row i) = 7"
  by (simp add: example_row_def)

lemma example_row_vehicle: "example_row i ! 5 = Num (real i)"
  by (simp add: example_row_def)

lemma example_row_inj: "example_row i = example_row j \<Longrightarrow> i = j"
proof -
  assume "example_row i = example_row j"
  then have "example_row i ! 5 = example_row j ! 5" by simp
  then show "i = j" by (simp add: example_row_vehicle)
qed

lemma example_row_complete: "\<not> list_ex isna (example_row i)"
  by (simp add: example_row_def)

lemma example_rows_distinct: "distinct (map example_row [0..<n])"
  by (simp add: distinct_map inj_on_def) (auto dest: example_row_inj)

lemma incomplete_row_na: "list_ex isna incomplete_row"
  by (simp add: incomplete_row_def)

lemma incomplete_row_new: "incomplete_row \<notin> set (map example_row [0..<n])"
proof
  assume "incomplete_row \<in> set (map example_row [0..<n])"
  then obtain i where "incomplete_row = example_row i" by auto
  with incomplete_row_na example_row_complete [of i] show False by simp
qed

lemma example_concat:
  "pd_concat \<lparr>columns = schema, rows = map example_row [0..<n]\<rparr>
             \<lparr>columns = schema, rows = [example_row 0, incomplete_row]\<rparr>
   = \<lparr>columns = schema, rows = map example_row [0..<n] @ [example_row 0, incomplete_row]\<rparr>"
proof -
  have d: "distinct schema" by (simp add: schema_def)
  have l: "length schema = 7" by (simp add: schema_def)
  have r: "\<And>i. reindex_row schema schema (example_row i) = example_row i"
    by (rule reindex_row_same [OF d]) (simp add: example_row_length l)
  have r2: "reindex_row schema schema incomplete_row = incomplete_row"
    by (rule reindex_row_same [OF d]) (simp add: incomplete_row_def l)
  show ?thesis
    by (simp add: pd_concat_def r r2)
qed

lemma example_dedup:
  assumes "0 < n"
  shows "keep_first [] (map example_row [0..<n] @ [example_row 0, incomplete_row])
   = map example_row [0..<n] @ [incomplete_row]"
proof -
  have m: "example_row 0 \<in> set (map example_row [0..<n])" using assms by simp
  have k: "keep_first [] (map example_row [0..<n]) = map example_row [0..<n]"
    by (rule keep_first_id) (simp_all add: example_rows_distinct)
  have "keep_first (map example_row [0..<n] @ []) [example_row 0, incomplete_row]
        = [incomplete_row]"
    using m incomplete_row_new [of n] by (simp del: set_map)
  then show ?thesis
    unfolding keep_first_append k by simp
qed

lemma example_clean:
  assumes "0 < n"
  shows "dropna (drop_duplicates (pd_concat \<lparr>columns = schema, rows = map example_row [0..<n]\<rparr>
             \<lparr>columns = schema, rows = [example_row 0, incomplete_row]\<rparr>))
   = \<lparr>columns = schema, rows = map example_row [0..<n]\<rparr>"
proof -
  have "filter (\<lambda>r. \<not> list_ex isna r) (map example_row [0..<n]) = map example_row [0..<n]"
    by (rule filter_True) (auto simp: example_row_complete)
  moreover have "filter (\<lambda>r. \<not> list_ex isna r) [incomplete_row] = []"
    using incomplete_row_na by simp
  ultimately have f: "filter (\<lambda>r. \<not> list_ex isna r) (map example_row [0..<n] @ [incomplete_row])
           = map example_row [0..<n]"
    by (simp only: filter_append append_Nil2)
  show ?thesis
    unfolding example_concat drop_duplicates_frame example_dedup [OF assms] dropna_frame f
    by (rule refl)
qed

lemma example_sample:
  assumes "choice w 150 2 = [i, j]" and "i < 150" and "j < 150"
  shows "pd_sample w \<lparr>columns = schema, rows = map example_row [0..<150]\<rparr>
         = Inr \<lparr>columns = schema, rows = [example_row i, example_row j]\<rparr>"
proof -
  have s: "sample_size 150 = 2" by (simp add: sample_size_def Let_def)
  have n: "map example_row [0..<150] ! i = example_row i"
          "map example_row [0..<150] ! j = example_row j"
    using assms(2,3) by (simp_all only: nth_map length_upt nth_upt) simp_all
  have l: "length (map example_row [0..<150]) = 150"
    by simp
  show ?thesis
    unfolding pd_sample_def take_rows_def Let_def
    using assms(2,3) by (simp add: l s assms(1) n del: upt_rec_numeral)
qed

lemma example_load_at:
  assumes "read_csv w = read_csv example_world"
    and "choice w 150 2 = [i, j]" and "i < 150" and "j < 150"
  shows "load_data w h
         = Inr (length h, h @ [\<lparr>columns = schema, rows = [example_row i, example_row j]\<rparr>])"
proof -
  have r1: "read_csv w ''data/iraste_nxt_cas.csv''
            = Inr \<lparr>columns = schema, rows = map example_row [0..<150]\<rparr>"
    unfolding assms(1) by (simp add: example_world_def del: upt_rec_numeral)
  have r2: "read_csv w ''data/iraste_nxt_casdms.csv''
            = Inr \<lparr>columns = schema, rows = [example_row 0, incomplete_row]\<rparr>"
    unfolding assms(1) by (simp add: example_world_def)
  have c: "dropna (drop_duplicates (pd_concat \<lparr>columns = schema, rows = map example_row [0..<150]\<rparr>
             \<lparr>columns = schema, rows = [example_row 0, incomplete_row]\<rparr>))
   = \<lparr>columns = schema, rows = map example_row [0..<150]\<rparr>"
    by (rule example_clean) simp
  show ?thesis
    unfolding load_data_def r1 r2 seq_Inr Let_def c
      example_sample [OF assms(2) assms(3) assms(4)] alloc_def
    by (rule refl)
qed

lemma example_load:
  "load_data example_world h
   = Inr (length h, h @ [\<lparr>columns = schema, rows = [example_row 107, example_row 3]\<rparr>])"
  by (rule example_load_at) (simp_all add: example_world_def)

lemma disjoint_load:
  "load_data disjoint_world h = Inr (length h, h @ [\<lparr>columns = [''a'', ''b''], rows = []\<rparr>])"
proof -
  have r1: "read_csv disjoint_world ''data/iraste_nxt_cas.csv''
            = Inr \<lparr>columns = [''a''], rows = [[Num 1]]\<rparr>"
    by (simp add: disjoint_world_def)
  have r2: "read_csv disjoint_world ''data/iraste_nxt_casdms.csv''
            = Inr \<lparr>columns = [''b''], rows = [[Num 2]]\<rparr>"
    by (simp add: disjoint_world_def)
  have c: "choice disjoint_world 0 0 = []"
    by (simp add: disjoint_world_def example_world_def del: upt_rec_numeral)
  have s: "sample_size 0 = 0" by (simp add: sample_size_def Let_def)
  have k: "dropna (drop_duplicates (pd_concat \<lparr>columns = [''a''], rows = [[Num 1]]\<rparr>
             \<lparr>columns = [''b''], rows = [[Num 2]]\<rparr>))
           = \<lparr>columns = [''a'', ''b''], rows = []\<rparr>"
    by (simp add: pd_concat_def reindex_row_def cell_at_def drop_duplicates_def dropna_def)
  show ?thesis
    unfolding load_data_def r1 r2 seq_Inr Let_def k
    by (simp add: pd_sample_def s c take_rows_def alloc_def)
qed

section \<open>The loader\<close>

text \<open>
  C1. Whatever the two files hold, the frame \<open>load_data\<close> returns has no two equal rows
  and no row with a missing value: both cleaning steps run on the concatenated frame
  before the sample is drawn from it, and the sample, taken at distinct positions,
  keeps both properties.
\<close>

theorem load_data_clean:
  assumes "load_data w h = Inr (df, h')"
    and "\<And>n k. distinct (choice w n k)"
  shows "distinct (rows (h' ! df))
    \<and> list_all (\<lambda>r. \<not> list_ex isna r) (rows (h' ! df))
    \<and> (\<exists>f1 f2 cleaned.
          read_csv w ''data/iraste_nxt_cas.csv'' = Inr f1
        \<and> read_csv w ''data/iraste_nxt_casdms.csv'' = Inr f2
        \<and> cleaned = dropna (drop_duplicates (pd_concat f1 f2))
        \<and> distinct (rows cleaned)
        \<and> list_all (\<lambda>r. \<not> list_ex isna r) (rows cleaned)
        \<and> pd_sample w cleaned = Inr (h' ! df)
        \<and> set (rows (h' ! df)) \<subseteq> set (rows cleaned))"
proof -
  from load_data_Inr [OF assms(1)] obtain f1 f2 L where
    r: "read_csv w ''data/iraste_nxt_cas.csv'' = Inr f1"
       "read_csv w ''data/iraste_nxt_casdms.csv'' = Inr f2"
    and s: "pd_sample w (dropna (drop_duplicates (pd_concat f1 f2))) = Inr L"
    and h: "df = length h" "h' = h @ [L]"
    by blast
  define cleaned where "cleaned = dropna (drop_duplicates (pd_concat f1 f2))"
  define idx where "idx = choice w (length (rows cleaned)) (sample_size (length (rows cleaned)))"
  have L: "h' ! df = L" using h by simp
  have d: "distinct (rows cleaned)"
    by (simp add: cleaned_def dropna_def drop_duplicates_def keep_first_distinct)
  have n: "list_all (\<lambda>r. \<not> list_ex isna r) (rows cleaned)"
    by (simp add: cleaned_def dropna_def list_all_iff)
  have t: "take_rows cleaned idx = Inr L"
    using s by (simp add: pd_sample_def Let_def cleaned_def idx_def)
  have rows: "rows L = map (\<lambda>i. rows cleaned ! i) idx"
    and rng: "\<forall>i\<in>set idx. i < length (rows cleaned)"
    using take_rows_Inr [OF t] by blast+
  have sub: "set (rows L) \<subseteq> set (rows cleaned)"
    using rng by (auto simp: rows)
  have "distinct idx" by (simp add: idx_def assms(2))
  then have dL: "distinct (rows L)"
    unfolding rows using d rng by (intro distinct_take)
  have nL: "list_all (\<lambda>r. \<not> list_ex isna r) (rows L)"
    using n sub by (auto simp: list_all_iff)
  show ?thesis
    unfolding L using dL nL r d n s sub cleaned_def by blast
qed

theorem load_data_clean_witness:
  "load_data example_world []
     = Inr (0, [\<lparr>columns = schema, rows = [example_row 107, example_row 3]\<rparr>])
   \<and> distinct [example_row 107, example_row 3]
   \<and> \<not> list_ex isna (example_row 107) \<and> \<not> list_ex isna (example_row 3)"
proof -
  have c: "\<And>n k. distinct (choice example_world n k)"
    by (simp add: example_world_def)
  have l: "load_data example_world []
     = Inr (0, [\<lparr>columns = schema, rows = [example_row 107, example_row 3]\<rparr>])"
    using example_load [of "[]"] by simp
  from load_data_clean [OF l c] l show ?thesis by simp
qed

text \<open>
  C3. The claim, \<open>load_data\<close> fails with a format error on two files whose columns have
  nothing in common, does not hold: on such a pair \<open>load_data\<close> returns an empty frame.
\<close>

theorem load_data_disjoint_counterexample:
  "load_data disjoint_world [] = Inr (0, [\<lparr>columns = [''a'', ''b''], rows = []\<rparr>])"
  using disjoint_load [of "[]"] by simp

text \<open>
  C3, as amended. \<open>load_data\<close> checks no schema. When both files are readable and their
  non-empty column lists have no label in common, it raises nothing: every row lacks a
  value under the other file's columns and is dropped, and the result is the empty frame
  under the columns of the first file followed by those of the second.
\<close>

theorem load_data_disjoint_schemas:
  assumes "read_csv w ''data/iraste_nxt_cas.csv'' = Inr f1"
    and "read_csv w ''data/iraste_nxt_casdms.csv'' = Inr f2"
    and "set (columns f1) \<inter> set (columns f2) = {}"
    and "columns f1 \<noteq> []" and "columns f2 \<noteq> []"
    and "choice w 0 0 = []"
  shows "load_data w h
         = Inr (length h, h @ [\<lparr>columns = columns f1 @ columns f2, rows = []\<rparr>])"
proof -
  have u: "filter (\<lambda>c. c \<notin> set (columns f1)) (columns f2) = columns f2"
    using assms(3) by (intro filter_True) auto
  obtain c2 where c2: "c2 \<in> set (columns f2)" using assms(5) by (cases "columns f2") auto
  obtain c1 where c1: "c1 \<in> set (columns f1)" using assms(4) by (cases "columns f1") auto
  have n1: "list_ex isna (reindex_row (columns f1) (columns f1 @ columns f2) r)" for r
    using c2 assms(3) by (intro reindex_row_missing [of c2]) auto
  have n2: "list_ex isna (reindex_row (columns f2) (columns f1 @ columns f2) r)" for r
    using c1 assms(3) by (intro reindex_row_missing [of c1]) auto
  have k: "set (keep_first [] xs) \<subseteq> set xs" for xs :: "cell list list"
    by (simp add: keep_first_set)
  have "dropna (drop_duplicates (pd_concat f1 f2))
        = \<lparr>columns = columns f1 @ columns f2, rows = []\<rparr>"
    unfolding pd_concat_def Let_def u drop_duplicates_frame dropna_frame
    by (auto simp: filter_empty_conv keep_first_set n1 n2)
  then show ?thesis
    unfolding load_data_def assms(1,2) seq_Inr Let_def
    by (simp add: pd_sample_def sample_size_def take_rows_def assms(6) alloc_def)
qed

theorem load_data_disjoint_schemas_witness:
  "set [''a''] \<inter> set [''b''] = ({} :: string set)
   \<and> choice disjoint_world 0 0 = []
   \<and> load_data disjoint_world [] = Inr (0, [\<lparr>columns = [''a'', ''b''], rows = []\<rparr>])"
proof -
  have r1: "read_csv disjoint_world ''data/iraste_nxt_cas.csv''
            = Inr \<lparr>columns = [''a''], rows = [[Num 1]]\<rparr>"
    by (simp add: disjoint_world_def)
  have r2: "read_csv disjoint_world ''data/iraste_nxt_casdms.csv''
            = Inr \<lparr>columns = [''b''], rows = [[Num 2]]\<rparr>"
    by (simp add: disjoint_world_def)
  have c: "choice disjoint_world 0 0 = []"
    by (simp add: disjoint_world_def example_world_def)
  from load_data_disjoint_schemas [OF r1 r2 _ _ _ c, of "[]"] c show ?thesis by simp
qed

section \<open>Facts about frames and handlers\<close>

lemma seq_load:
  "seq (load_data w h0) (\<lambda>(df, h). k df h) = Inr y
   \<longleftrightarrow> (\<exists>df h. load_data w h0 = Inr (df, h) \<and> k df h = Inr y)"
  by (cases "load_data w h0") auto

lemma get_col_Inr:
  "get_col f c = Inr col \<longleftrightarrow> (\<exists>j. col_index (columns f) c = Some j \<and> col = column_at f j)"
  by (auto simp: get_col_def split: option.splits)

lemma mask_filter: "map fst (filter snd (zip xs (map P xs))) = filter P xs"
  by (induction xs) auto

lemma mask_rows_column:
  "mask_rows f (map P (column_at f j)) = f\<lparr>rows := filter (\<lambda>r. P (cell_at r j)) (rows f)\<rparr>"
proof -
  have "map P (column_at f j) = map (\<lambda>r. P (cell_at r j)) (rows f)"
    by (simp add: column_at_def)
  then show ?thesis
    by (simp add: mask_rows_def mask_filter)
qed

lemma isin_safety:
  "isin c safety_alerts
   \<longleftrightarrow> c \<in> {Str ''cas_ldw'', Str ''cas_hmw'', Str ''hard_brake'', Str ''cas_pcw'', Str ''cas_fcw''}"
  by (cases c) (auto simp: isin_def safety_alerts_def)

lemma row_get_Inr:
  "row_get cols r name = Inr c \<longleftrightarrow> (\<exists>j. col_index cols name = Some j \<and> c = cell_at r j)"
  by (auto simp: row_get_def split: option.splits)




lemma traverse_length: "traverse f xs = Inr ys \<Longrightarrow> length ys = length xs"
proof (induction xs arbitrary: ys)
  case Nil
  then show ?case by simp
next
  case (Cons x xs)
  from Cons.prems obtain y zs where "f x = Inr y" "traverse f xs = Inr zs" "ys = y # zs"
    by (auto simp: seq_eq_Inr)
  with Cons.IH [of zs] show ?case by simp
qed

lemma get_col_length: "get_col f c = Inr col \<Longrightarrow> length col = length (rows f)"
  by (auto simp: get_col_Inr column_at_def)

lemma col_index_append:
  "col_index (xs @ [c]) c' =
     (case col_index xs c' of Some j \<Rightarrow> Some j
      | None \<Rightarrow> if c = c' then Some (length xs) else None)"
  by (induction xs) (auto split: option.splits)

lemma rectangular_rows: "rectangular f \<Longrightarrow> r \<in> set (rows f) \<Longrightarrow> length r = length (columns f)"
  by (simp add: rectangular_def list_all_iff)

lemma map_zip_fst:
  assumes "length vs = length rs" and "\<And>r v. r \<in> set rs \<Longrightarrow> g (r, v) = k r"
  shows "map g (zip rs vs) = map k rs"
  using assms
proof (induction rs arbitrary: vs)
  case Nil
  then show ?case by simp
next
  case (Cons r rs)
  then obtain v ws where "vs = v # ws" by (cases vs) auto
  with Cons show ?case by simp
qed

lemma map_zip_snd:
  assumes "length vs = length rs" and "\<And>r v. r \<in> set rs \<Longrightarrow> g (r, v) = v"
  shows "map g (zip rs vs) = vs"
  using assms
proof (induction rs arbitrary: vs)
  case Nil
  then show ?case by simp
next
  case (Cons r rs)
  then obtain v ws where "vs = v # ws" by (cases vs) auto
  with Cons show ?case by simp
qed

lemma set_col_rows_length:
  "length vals = length (rows f) \<Longrightarrow> length (rows (set_col f c vals)) = length (rows f)"
  by (simp add: set_col_def split: option.splits)

lemma set_col_columns:
  "set (columns (set_col f c vals)) = insert c (set (columns f))"
proof (cases "col_index (columns f) c")
  case None
  then show ?thesis by (simp add: set_col_def)
next
  case (Some j)
  then have "c \<in> set (columns f)" using col_index_Some [OF Some] by auto
  with Some show ?thesis by (auto simp: set_col_def)
qed

lemma set_col_rectangular:
  assumes "rectangular f"
  shows "rectangular (set_col f c vals)"
proof (cases "col_index (columns f) c")
  case None
  have "length r = length (columns f)" if "(r, v) \<in> set (zip (rows f) vals)" for r v
    using assms that by (auto dest: set_zip_leftD rectangular_rows)
  then show ?thesis
    using None by (auto simp: set_col_def rectangular_def list_all_iff)
next
  case (Some j)
  have "length r = length (columns f)" if "(r, v) \<in> set (zip (rows f) vals)" for r v
    using assms that by (auto dest: set_zip_leftD rectangular_rows)
  then show ?thesis
    using Some by (auto simp: set_col_def rectangular_def list_all_iff)
qed

lemma get_set_same:
  assumes "rectangular f" and "length vals = length (rows f)"
  shows "get_col (set_col f c vals) c = Inr vals"
proof (cases "col_index (columns f) c")
  case None
  have i: "col_index (columns f @ [c]) c = Some (length (columns f))"
    using None by (simp add: col_index_append)
  have "map (\<lambda>r. cell_at r (length (columns f))) (map (\<lambda>(r, v). r @ [v]) (zip (rows f) vals))
        = vals"
    unfolding map_map
  proof (rule map_zip_snd [OF assms(2)])
    fix r v assume "r \<in> set (rows f)"
    then have "length (columns f) = length r" by (rule rectangular_rows [OF assms(1), symmetric])
    then show "((\<lambda>r. cell_at r (length (columns f))) \<circ> (\<lambda>(r, v). r @ [v])) (r, v) = v"
      by (simp add: cell_at_def)
  qed
  note m = this
  have "get_col (set_col f c vals) c
        = Inr (map (\<lambda>r. cell_at r (length (columns f)))
                 (map (\<lambda>(r, v). r @ [v]) (zip (rows f) vals)))"
    by (simp add: set_col_def None get_col_def i column_at_def)
  then show ?thesis unfolding m .
next
  case (Some j)
  have j: "j < length (columns f)" using col_index_Some [OF Some] by simp
  have "map (\<lambda>r. cell_at r j) (map (\<lambda>(r, v). r[j := v]) (zip (rows f) vals)) = vals"
    unfolding map_map
  proof (rule map_zip_snd [OF assms(2)])
    fix r v assume "r \<in> set (rows f)"
    then have "length r = length (columns f)" by (rule rectangular_rows [OF assms(1)])
    with j have "j < length r" by simp
    then show "((\<lambda>r. cell_at r j) \<circ> (\<lambda>(r, v). r[j := v])) (r, v) = v"
      by (simp add: cell_at_def)
  qed
  note m = this
  have "get_col (set_col f c vals) c
        = Inr (map (\<lambda>r. cell_at r j) (map (\<lambda>(r, v). r[j := v]) (zip (rows f) vals)))"
    by (simp add: set_col_def Some get_col_def column_at_def)
  then show ?thesis unfolding m .
qed

lemma get_set_other:
  assumes "rectangular f" and "length vals = length (rows f)" and "c' \<noteq> c"
  shows "get_col (set_col f c vals) c' = get_col f c'"
proof (cases "col_index (columns f) c")
  case None
  have i: "col_index (columns f @ [c]) c' = col_index (columns f) c'"
    using assms(3) by (simp add: col_index_append split: option.splits)
  have "map (\<lambda>r. cell_at r j') (map (\<lambda>(r, v). r @ [v]) (zip (rows f) vals))
        = map (\<lambda>r. cell_at r j') (rows f)" if "j' < length (columns f)" for j'
    unfolding map_map
  proof (rule map_zip_fst [OF assms(2)])
    fix r v assume "r \<in> set (rows f)"
    then have "length r = length (columns f)" by (rule rectangular_rows [OF assms(1)])
    with that have "j' < length r" by simp
    then show "((\<lambda>r. cell_at r j') \<circ> (\<lambda>(r, v). r @ [v])) (r, v) = cell_at r j'"
      by (simp add: cell_at_def nth_append)
  qed
  note m = this
  show ?thesis
  proof (cases "col_index (columns f) c'")
    case None': None
    then show ?thesis by (simp add: set_col_def None get_col_def i)
  next
    case (Some j')
    have "j' < length (columns f)" using col_index_Some [OF Some] by simp
    from m [OF this] show ?thesis
      by (simp add: set_col_def None get_col_def i Some column_at_def)
  qed
next
  case (Some j)
  have "map (\<lambda>r. cell_at r j') (map (\<lambda>(r, v). r[j := v]) (zip (rows f) vals))
        = map (\<lambda>r. cell_at r j') (rows f)" if "j' \<noteq> j" for j'
    unfolding map_map
    by (rule map_zip_fst [OF assms(2)]) (simp add: cell_at_def that [symmetric])
  note m = this
  show ?thesis
  proof (cases "col_index (columns f) c'")
    case None
    then show ?thesis by (simp add: set_col_def Some get_col_def)
  next
    case Some': (Some j')
    have "j' \<noteq> j"
      using col_index_Some [OF Some] col_index_Some [OF Some'] assms(3) by auto
    from m [OF this] show ?thesis
      by (simp add: set_col_def Some get_col_def Some' column_at_def)
  qed
qed

lemma derive_Inr:
  "derive h a src dst f = Inr h'
   \<longleftrightarrow> (\<exists>col vals. get_col (h ! a) src = Inr col \<and> f col = Inr vals
                   \<and> h' = h[a := set_col (h ! a) dst vals])"
  by (auto simp: derive_def assign_def seq_eq_Inr)

lemma derive_other:
  assumes "derive h a src dst f = Inr h'"
  shows "length h' = length h" and "\<And>b. b \<noteq> a \<Longrightarrow> h' ! b = h ! b"
  using assms unfolding derive_Inr by auto

lemma derive_spec:
  assumes d: "derive h a src dst f = Inr h'"
    and a: "a < length h" and r: "rectangular (h ! a)"
    and f: "\<forall>col vals. f col = Inr vals \<longrightarrow> length vals = length col"
  shows "\<exists>col vals.
      get_col (h ! a) src = Inr col \<and> f col = Inr vals
    \<and> h' ! a = set_col (h ! a) dst vals
    \<and> rectangular (h' ! a) \<and> length h' = length h
    \<and> get_col (h' ! a) dst = Inr vals
    \<and> (\<forall>c. c \<noteq> dst \<longrightarrow> get_col (h' ! a) c = get_col (h ! a) c)
    \<and> set (columns (h' ! a)) = insert dst (set (columns (h ! a)))
    \<and> length (rows (h' ! a)) = length (rows (h ! a))"
proof -
  from d obtain col vals where g: "get_col (h ! a) src = Inr col" and v: "f col = Inr vals"
    and h': "h' = h[a := set_col (h ! a) dst vals]"
    unfolding derive_Inr by blast
  have n: "h' ! a = set_col (h ! a) dst vals" using a by (simp add: h')
  have l: "length vals = length (rows (h ! a))"
    using f v get_col_length [OF g] by simp
  have 1: "rectangular (h' ! a)" unfolding n by (rule set_col_rectangular [OF r])
  have 2: "length h' = length h" by (simp add: h')
  have 3: "get_col (h' ! a) dst = Inr vals" unfolding n by (rule get_set_same [OF r l])
  have 4: "\<forall>c. c \<noteq> dst \<longrightarrow> get_col (h' ! a) c = get_col (h ! a) c"
    unfolding n using get_set_other [OF r l] by blast
  have 5: "set (columns (h' ! a)) = insert dst (set (columns (h ! a)))"
    unfolding n by (rule set_col_columns)
  have 6: "length (rows (h' ! a)) = length (rows (h ! a))"
    unfolding n by (rule set_col_rows_length [OF l])
  from g v n 1 2 3 4 5 6 show ?thesis by blast
qed

lemma derive_map_spec:
  assumes d: "derive h a src dst (\<lambda>c. Inr (g c)) = Inr h'"
    and a: "a < length h" and r: "rectangular (h ! a)"
    and g: "\<And>col. length (g col) = length col"
  shows "\<exists>col.
      get_col (h ! a) src = Inr col
    \<and> rectangular (h' ! a) \<and> length h' = length h
    \<and> get_col (h' ! a) dst = Inr (g col)
    \<and> (\<forall>c. c \<noteq> dst \<longrightarrow> get_col (h' ! a) c = get_col (h ! a) c)"
proof -
  have f: "\<forall>col vals. Inr (g col) = (Inr vals :: error + cell list)
           \<longrightarrow> length vals = length col"
    using g by auto
  from derive_spec [OF d a r f] obtain col vals where
    "get_col (h ! a) src = Inr col" "Inr (g col) = (Inr vals :: error + cell list)"
    "rectangular (h' ! a)" "length h' = length h" "get_col (h' ! a) dst = Inr vals"
    "\<forall>c. c \<noteq> dst \<longrightarrow> get_col (h' ! a) c = get_col (h ! a) c"
    by blast
  then show ?thesis by auto
qed

lemma load_data_rectangular:
  assumes "load_data w h = Inr (df, h')"
  shows "rectangular (h' ! df)"
proof -
  from load_data_Inr [OF assms] obtain f1 f2 L where
    s: "pd_sample w (dropna (drop_duplicates (pd_concat f1 f2))) = Inr L"
    and h: "df = length h" "h' = h @ [L]"
    by blast
  define cleaned where "cleaned = dropna (drop_duplicates (pd_concat f1 f2))"
  have c: "columns cleaned = columns (pd_concat f1 f2)"
    by (simp add: cleaned_def dropna_def drop_duplicates_def)
  have "set (rows cleaned) \<subseteq> set (rows (pd_concat f1 f2))"
    by (auto simp: cleaned_def dropna_def drop_duplicates_def keep_first_set)
  moreover have "rectangular (pd_concat f1 f2)"
    by (auto simp: rectangular_def pd_concat_def Let_def list_all_iff reindex_row_def)
  ultimately have r: "rectangular cleaned"
    unfolding rectangular_def list_all_iff c by blast
  from s obtain idx where t: "take_rows cleaned idx = Inr L"
    by (simp add: pd_sample_def Let_def cleaned_def)
  have "columns L = columns cleaned" and "set (rows L) \<subseteq> set (rows cleaned)"
    using take_rows_Inr [OF t] by auto
  with r have "rectangular L"
    unfolding rectangular_def list_all_iff by auto
  then show ?thesis using h by simp
qed

lemma corr_prepare_other:
  assumes "corr_prepare w h a = Inr h'"
  shows "length h' = length h \<and> (\<forall>b. b \<noteq> a \<longrightarrow> h' ! b = h ! b)"
proof -
  from assms obtain h1 h2 h3 h4 h5 h6 h7 where
    d: "derive h a ''Alert'' ''Alert'' (\<lambda>c. Inr (cat_codes w c)) = Inr h1"
       "derive h1 a ''Date'' ''Date'' (to_datetime_raise w) = Inr h2"
       "derive h2 a ''Date'' ''DayOfWeek'' (\<lambda>c. Inr (map (day_name w) c)) = Inr h3"
       "derive h3 a ''Date'' ''HourOfDay'' (\<lambda>c. Inr (map (hour w) c)) = Inr h4"
       "derive h4 a ''Date'' ''Date'' (\<lambda>c. Inr (cat_codes w c)) = Inr h5"
       "derive h5 a ''Time'' ''Time'' (\<lambda>c. Inr (to_datetime_coerce w c)) = Inr h6"
       "derive h6 a ''DayOfWeek'' ''DayOfWeek'' (\<lambda>c. Inr (cat_codes w c)) = Inr h7"
       "derive h7 a ''HourOfDay'' ''HourOfDay'' (\<lambda>c. Inr (cat_codes w c)) = Inr h'"
    unfolding corr_prepare_def seq_eq_Inr by blast
  show ?thesis
    using derive_other [OF d(1)] derive_other [OF d(2)] derive_other [OF d(3)]
      derive_other [OF d(4)] derive_other [OF d(5)] derive_other [OF d(6)]
      derive_other [OF d(7)] derive_other [OF d(8)]
    by simp
qed

lemma derive_columns:
  assumes "derive h a src dst f = Inr h'" and "a < length h"
  shows "set (columns (h' ! a)) = insert dst (set (columns (h ! a)))"
    and "length h' = length h"
  using assms unfolding derive_Inr by (auto simp: set_col_columns)

lemma load_data_bound:
  assumes "load_data w h0 = Inr (df, h1)"
  shows "df < length h1"
  using load_data_nth [OF assms] by simp

lemma to_datetime_raise_length:
  "\<forall>col vals. to_datetime_raise w col = Inr vals \<longrightarrow> length vals = length col"
  unfolding to_datetime_raise_def by (blast dest: traverse_length)

lemma astype_float_length:
  "\<forall>col vals. astype_float w col = Inr vals \<longrightarrow> length vals = length col"
  unfolding astype_float_def by (blast dest: traverse_length)

lemma cat_codes_length: "length (cat_codes w col) = length col"
  by (simp add: cat_codes_def)

lemma to_datetime_coerce_length: "length (to_datetime_coerce w col) = length col"
  by (simp add: to_datetime_coerce_def)

lemma drop_col_columns:
  assumes "drop_col f name = Inr d"
  shows "name \<notin> set (columns d)"
  using assms by (auto simp: drop_col_def Let_def split: if_splits)

lemma corr_prepare_hour:
  assumes p: "corr_prepare w h a = Inr h'"
    and a: "a < length h" and r: "rectangular (h ! a)"
  shows "\<exists>dates parsed. get_col (h ! a) ''Date'' = Inr dates
           \<and> to_datetime_raise w dates = Inr parsed
           \<and> get_col (h' ! a) ''HourOfDay'' = Inr (cat_codes w (map (hour w) parsed))"
proof -
  from p obtain h1 h2 h3 h4 h5 h6 h7 where
    d: "derive h a ''Alert'' ''Alert'' (\<lambda>c. Inr (cat_codes w c)) = Inr h1"
       "derive h1 a ''Date'' ''Date'' (to_datetime_raise w) = Inr h2"
       "derive h2 a ''Date'' ''DayOfWeek'' (\<lambda>c. Inr (map (day_name w) c)) = Inr h3"
       "derive h3 a ''Date'' ''HourOfDay'' (\<lambda>c. Inr (map (hour w) c)) = Inr h4"
       "derive h4 a ''Date'' ''Date'' (\<lambda>c. Inr (cat_codes w c)) = Inr h5"
       "derive h5 a ''Time'' ''Time'' (\<lambda>c. Inr (to_datetime_coerce w c)) = Inr h6"
       "derive h6 a ''DayOfWeek'' ''DayOfWeek'' (\<lambda>c. Inr (cat_codes w c)) = Inr h7"
       "derive h7 a ''HourOfDay'' ''HourOfDay'' (\<lambda>c. Inr (cat_codes w c)) = Inr h'"
    unfolding corr_prepare_def seq_eq_Inr by blast
  from derive_map_spec [OF d(1) a r cat_codes_length] have
    r1: "rectangular (h1 ! a)" and l1: "length h1 = length h"
    and o1: "\<forall>c. c \<noteq> ''Alert'' \<longrightarrow> get_col (h1 ! a) c = get_col (h ! a) c"
    by blast+
  have a1: "a < length h1" using a l1 by simp
  from derive_spec [OF d(2) a1 r1 to_datetime_raise_length] obtain dates parsed where
    g2: "get_col (h1 ! a) ''Date'' = Inr dates" and v2: "to_datetime_raise w dates = Inr parsed"
    and r2: "rectangular (h2 ! a)" and l2: "length h2 = length h1"
    and s2: "get_col (h2 ! a) ''Date'' = Inr parsed"
    by blast
  have dates: "get_col (h ! a) ''Date'' = Inr dates" using o1 g2 by simp
  have a2: "a < length h2" using a1 l2 by simp
  from derive_map_spec [OF d(3) a2 r2 length_map] have
    r3: "rectangular (h3 ! a)" and l3: "length h3 = length h2"
    and o3: "\<forall>c. c \<noteq> ''DayOfWeek'' \<longrightarrow> get_col (h3 ! a) c = get_col (h2 ! a) c"
    by blast+
  have a3: "a < length h3" using a2 l3 by simp
  have g3: "get_col (h3 ! a) ''Date'' = Inr parsed" using o3 s2 by simp
  from derive_map_spec [OF d(4) a3 r3 length_map] obtain col4 where
    g4: "get_col (h3 ! a) ''Date'' = Inr col4"
    and r4: "rectangular (h4 ! a)" and l4: "length h4 = length h3"
    and s4: "get_col (h4 ! a) ''HourOfDay'' = Inr (map (hour w) col4)"
    by blast
  have hours: "get_col (h4 ! a) ''HourOfDay'' = Inr (map (hour w) parsed)"
    using g3 g4 s4 by simp
  have a4: "a < length h4" using a3 l4 by simp
  from derive_map_spec [OF d(5) a4 r4 cat_codes_length] have
    r5: "rectangular (h5 ! a)" and l5: "length h5 = length h4"
    and o5: "\<forall>c. c \<noteq> ''Date'' \<longrightarrow> get_col (h5 ! a) c = get_col (h4 ! a) c"
    by blast+
  have a5: "a < length h5" using a4 l5 by simp
  from derive_map_spec [OF d(6) a5 r5 to_datetime_coerce_length] have
    r6: "rectangular (h6 ! a)" and l6: "length h6 = length h5"
    and o6: "\<forall>c. c \<noteq> ''Time'' \<longrightarrow> get_col (h6 ! a) c = get_col (h5 ! a) c"
    by blast+
  have a6: "a < length h6" using a5 l6 by simp
  from derive_map_spec [OF d(7) a6 r6 cat_codes_length] have
    r7: "rectangular (h7 ! a)" and l7: "length h7 = length h6"
    and o7: "\<forall>c. c \<noteq> ''DayOfWeek'' \<longrightarrow> get_col (h7 ! a) c = get_col (h6 ! a) c"
    by blast+
  have a7: "a < length h7" using a6 l7 by simp
  have g7: "get_col (h7 ! a) ''HourOfDay'' = Inr (map (hour w) parsed)"
    using o7 o6 o5 hours by simp
  from derive_map_spec [OF d(8) a7 r7 cat_codes_length] obtain col8 where
    g8: "get_col (h7 ! a) ''HourOfDay'' = Inr col8"
    and s8: "get_col (h' ! a) ''HourOfDay'' = Inr (cat_codes w col8)"
    by blast
  have "get_col (h' ! a) ''HourOfDay'' = Inr (cat_codes w (map (hour w) parsed))"
    using g7 g8 s8 by simp
  with dates v2 show ?thesis by blast
qed




lemma is_str_notna: "is_str c \<Longrightarrow> \<not> isna c"
  by (cases c) auto

lemma take_rows_column:
  assumes "take_rows f idx = Inr s" and "get_col f c = Inr col"
  shows "get_col s c = Inr (map (\<lambda>i. col ! i) idx)"
proof -
  from assms(2) obtain j where j: "col_index (columns f) c = Some j"
    and col: "col = column_at f j"
    unfolding get_col_Inr by blast
  note t = take_rows_Inr [OF assms(1)]
  have "column_at s j = map (\<lambda>i. col ! i) idx"
    using t(3) by (simp add: column_at_def t(2) col)
  then show ?thesis
    using j by (simp add: get_col_def t(1))
qed

lemma take_rows_rectangular:
  assumes "take_rows f idx = Inr s" and "rectangular f"
  shows "rectangular s"
proof -
  note t = take_rows_Inr [OF assms(1)]
  have "set (rows s) \<subseteq> set (rows f)" using t(3) by (auto simp: t(2))
  with assms(2) show ?thesis
    unfolding rectangular_def list_all_iff t(1) by blast
qed

lemma sort_values_text:
  assumes g: "get_col f name = Inr keys" and str: "list_all is_str keys"
    and s: "sort_values w f name = Inr s"
  shows "take_rows f (argsort w keys) = Inr s"
proof -
  have nn: "filter (\<lambda>i. \<not> isna (keys ! i)) [0..<length keys] = [0..<length keys]"
    using str by (intro filter_True) (auto simp: list_all_length is_str_notna)
  have na: "filter (\<lambda>i. isna (keys ! i)) [0..<length keys] = []"
    using str by (auto simp: filter_empty_conv list_all_length is_str_notna)
  have ks: "map (\<lambda>i. keys ! i) [0..<length keys] = keys"
    by (rule map_nth)
  have c: "comparable keys" using str by (simp add: comparable_def)
  from s have k: "(if \<not> list_all (\<lambda>i. i < length keys) (argsort w keys) then Inl IndexError
          else take_rows f (map (\<lambda>i. [0..<length keys] ! i) (argsort w keys) @ [])) = Inr s"
    unfolding sort_values_def g seq_Inr Let_def nn na ks using c by simp
  then have b: "list_all (\<lambda>i. i < length keys) (argsort w keys)"
    by (auto split: if_splits)
  then have "map (\<lambda>i. [0..<length keys] ! i) (argsort w keys) = argsort w keys"
    by (intro map_idI) (auto simp: list_all_iff)
  with k b show ?thesis by simp
qed

lemma permuted_column:
  assumes "mset p = mset [0..<length xs]"
  shows "mset (map (\<lambda>i. xs ! i) p) = mset xs"
proof -
  have "mset (map (\<lambda>i. xs ! i) p) = image_mset (\<lambda>i. xs ! i) (mset p)" by simp
  also have "\<dots> = image_mset (\<lambda>i. xs ! i) (mset [0..<length xs])" by (simp only: assms)
  also have "\<dots> = mset (map (\<lambda>i. xs ! i) [0..<length xs])" by simp
  also have "\<dots> = mset xs" by (simp only: map_nth)
  finally show ?thesis .
qed

lemma px_requires_Inr:
  "px_requires f names = Inr u \<longleftrightarrow> set names \<subseteq> set (columns f)"
  by (auto simp: px_requires_def list_all_iff)

lemma spatial_analysis_Inr:
  assumes "spatial_analysis w h0 = Inr (df, out, h)"
  shows "\<exists>lat long lat_mean long_mean.
      load_data w h0 = Inr (df, h)
    \<and> get_col (h ! df) ''Lat'' = Inr lat \<and> series_mean w lat = Inr lat_mean
    \<and> get_col (h ! df) ''Long'' = Inr long \<and> series_mean w long = Inr long_mean
    \<and> out = (h ! df, lat_mean, long_mean)"
  using assms unfolding spatial_analysis_def seq_load by (auto simp: seq_eq_Inr)

lemma driver_behavior_Inr:
  assumes "driver_behavior w h0 = Inr (df, out, h)"
  shows "load_data w h0 = Inr (df, h) \<and> get_col (h ! df) ''Alert'' = Inr out"
  using assms unfolding driver_behavior_def seq_load by (auto simp: seq_eq_Inr)

lemma get_coordinates_Inr:
  assumes "get_coordinates w h0 = Inr (df, out, h)"
  shows "load_data w h0 = Inr (df, h)
         \<and> traverse (coord_record (columns (h ! df))) (rows (h ! df)) = Inr out"
  using assms unfolding get_coordinates_def seq_load by (auto simp: seq_eq_Inr)

lemma safety_impact_Inr:
  assumes "safety_impact w h0 = Inr (df, safety_df, h)"
  shows "\<exists>h1 alert. load_data w h0 = Inr (df, h1)
     \<and> get_col (h1 ! df) ''Alert'' = Inr alert
     \<and> safety_df = mask_rows (h1 ! df) (map (\<lambda>c. isin c safety_alerts) alert)
     \<and> h = h1 @ [safety_df]"
  using assms unfolding safety_impact_def seq_load
  by (auto simp: alloc_def safety_alerts_def seq_eq_Inr)

lemma safety_analysis_Inr:
  assumes "safety_analysis w h0 = Inr (df, safety_df, h)"
  shows "\<exists>h1 alert. load_data w h0 = Inr (df, h1)
     \<and> get_col (h1 ! df) ''Alert'' = Inr alert
     \<and> safety_df = mask_rows (h1 ! df) (map (\<lambda>c. isin c safety_alerts) alert)
     \<and> h = h1 @ [safety_df]"
  using assms unfolding safety_analysis_def seq_load
  by (auto simp: alloc_def seq_eq_Inr)

lemma alert_frequency_Inr:
  assumes "alert_frequency w h0 = Inr (df, out, h)"
  shows "\<exists>h1 h2 h3 h4. load_data w h0 = Inr (df, h1)
     \<and> derive h1 df ''Date'' ''Date'' (to_datetime_raise w) = Inr h2
     \<and> derive h2 df ''Date'' ''DayOfWeek'' (\<lambda>c. Inr (map (day_name w) c)) = Inr h3
     \<and> derive h3 df ''Time'' ''Time'' (\<lambda>c. Inr (to_datetime_coerce w c)) = Inr h4
     \<and> derive h4 df ''Speed'' ''Speed'' (astype_float w) = Inr h
     \<and> out = h ! df"
  using assms unfolding alert_frequency_def seq_load by (auto simp: seq_eq_Inr)

lemma home_Inr:
  assumes "home w h0 = Inr (df, (summary, out, locations), h)"
  shows "\<exists>h1 h2. load_data w h0 = Inr (df, h1)
     \<and> describe w (h1 ! df) = Inr summary
     \<and> derive h1 df ''Date'' ''Date'' (to_datetime_raise w) = Inr h2
     \<and> derive h2 df ''Date'' ''DayOfWeek'' (\<lambda>c. Inr (map (day_name w) c)) = Inr h
     \<and> traverse (location (columns (h ! df))) (rows (h ! df)) = Inr locations
     \<and> out = h ! df"
  using assms unfolding home_def seq_load by (auto simp: seq_eq_Inr)

lemma speed_analysis_Inr:
  assumes "speed_analysis w h0 = Inr (df, out, h)"
  shows "\<exists>h1 h2 s h3. load_data w h0 = Inr (df, h1)
     \<and> derive h1 df ''Speed'' ''Speed'' (astype_float w) = Inr h2
     \<and> sort_values w (h2 ! df) ''Time'' = Inr s
     \<and> derive (h2 @ [s]) (length h2) ''Time'' ''Time''
            (\<lambda>c. Inr (to_datetime_coerce w c)) = Inr h3
     \<and> derive h3 (length h2) ''Speed'' ''Speed_Category''
            (\<lambda>c. Inr (map (\<lambda>v. Str (categorize_speed (float_of_cell v))) c)) = Inr h
     \<and> out = h ! length h2"
  using assms unfolding speed_analysis_def seq_load
  by (auto simp: alloc_def seq_eq_Inr)

lemma correlation_analysis_Inr:
  assumes "correlation_analysis w h0 = Inr (df, (m, df1), h)"
  shows "\<exists>h1 hp d. load_data w h0 = Inr (df, h1) \<and> df1 = length h1
          \<and> corr_prepare w (h1 @ [h1 ! df]) df1 = Inr hp
          \<and> drop_col (hp ! df1) ''HourOfDay'' = Inr d
          \<and> h = hp[df1 := d] \<and> length hp = Suc (length h1) \<and> pd_corr w d = Inr m"
proof -
  from assms obtain h1 hp d where l: "load_data w h0 = Inr (df, h1)"
    and p: "corr_prepare w (h1 @ [h1 ! df]) (length h1) = Inr hp"
    and dr: "drop_col (hp ! length h1) ''HourOfDay'' = Inr d"
    and m: "pd_corr w (hp[length h1 := d] ! length h1) = Inr m"
    and h: "h = hp[length h1 := d]" and d1: "df1 = length h1"
    unfolding correlation_analysis_def seq_load
    by (auto simp: alloc_def Let_def seq_eq_Inr)
  have lp: "length hp = Suc (length h1)"
    using corr_prepare_other [OF p] by simp
  then have "pd_corr w d = Inr m" using m by simp
  with l p dr h d1 lp show ?thesis by blast
qed

lemma safety_df_spec:
  assumes l: "load_data w h0 = Inr (df, h1)"
    and a: "get_col (h1 ! df) ''Alert'' = Inr alert"
    and s: "safety_df = mask_rows (h1 ! df) (map (\<lambda>c. isin c safety_alerts) alert)"
  shows "\<exists>j. col_index (columns (h1 ! df)) ''Alert'' = Some j
     \<and> columns safety_df = columns (h1 ! df)
     \<and> rows safety_df
         = filter (\<lambda>r. cell_at r j \<in> {Str ''cas_ldw'', Str ''cas_hmw'', Str ''hard_brake'',
                                         Str ''cas_pcw'', Str ''cas_fcw''}) (rows (h1 ! df))
     \<and> set (rows safety_df) \<subseteq> set (rows (h1 ! df))
     \<and> list_all (\<lambda>r. cell_at r j \<in> {Str ''cas_ldw'', Str ''cas_hmw'', Str ''hard_brake'',
                                        Str ''cas_pcw'', Str ''cas_fcw''}) (rows safety_df)"
proof -
  from a obtain j where j: "col_index (columns (h1 ! df)) ''Alert'' = Some j"
    and alert: "alert = column_at (h1 ! df) j"
    unfolding get_col_Inr by blast
  have sd: "safety_df = (h1 ! df)\<lparr>rows := filter (\<lambda>r. isin (cell_at r j) safety_alerts)
                                                (rows (h1 ! df))\<rparr>"
    using s by (simp add: alert mask_rows_column)
  show ?thesis
    using j by (auto simp: sd isin_safety list_all_iff)
qed

lemma alert_frequency_assigns:
  assumes "alert_frequency w h0 = Inr (df, out, h)"
  shows "\<exists>h1 dates parsed texts speed sp.
      load_data w h0 = Inr (df, h1)
    \<and> get_col (h1 ! df) ''Date'' = Inr dates \<and> to_datetime_raise w dates = Inr parsed
    \<and> get_col (h1 ! df) ''Time'' = Inr texts
    \<and> get_col (h1 ! df) ''Speed'' = Inr speed \<and> astype_float w speed = Inr sp
    \<and> h ! df = set_col (set_col (set_col (set_col (h1 ! df) ''Date'' parsed)
                   ''DayOfWeek'' (map (day_name w) parsed))
                   ''Time'' (to_datetime_coerce w texts)) ''Speed'' sp
    \<and> get_col (h ! df) ''Date'' = Inr parsed
    \<and> get_col (h ! df) ''DayOfWeek'' = Inr (map (day_name w) parsed)
    \<and> get_col (h ! df) ''Time'' = Inr (to_datetime_coerce w texts)
    \<and> get_col (h ! df) ''Speed'' = Inr sp
    \<and> (\<forall>c. c \<notin> {''Date'', ''DayOfWeek'', ''Time'', ''Speed''}
           \<longrightarrow> get_col (h ! df) c = get_col (h1 ! df) c)
    \<and> out = h ! df"
proof -
  from alert_frequency_Inr [OF assms] obtain h1 h2 h3 h4 where
    l: "load_data w h0 = Inr (df, h1)"
    and d: "derive h1 df ''Date'' ''Date'' (to_datetime_raise w) = Inr h2"
       "derive h2 df ''Date'' ''DayOfWeek'' (\<lambda>c. Inr (map (day_name w) c)) = Inr h3"
       "derive h3 df ''Time'' ''Time'' (\<lambda>c. Inr (to_datetime_coerce w c)) = Inr h4"
       "derive h4 df ''Speed'' ''Speed'' (astype_float w) = Inr h"
    and o: "out = h ! df"
    by blast
  note b1 = load_data_bound [OF l] and r1 = load_data_rectangular [OF l]
  from derive_spec [OF d(1) b1 r1 to_datetime_raise_length] obtain dates parsed where
    g1: "get_col (h1 ! df) ''Date'' = Inr dates" and v1: "to_datetime_raise w dates = Inr parsed"
    and n2: "h2 ! df = set_col (h1 ! df) ''Date'' parsed"
    and r2: "rectangular (h2 ! df)" and l2: "length h2 = length h1"
    and s2: "get_col (h2 ! df) ''Date'' = Inr parsed"
    and o2: "\<forall>c. c \<noteq> ''Date'' \<longrightarrow> get_col (h2 ! df) c = get_col (h1 ! df) c"
    by blast
  have b2: "df < length h2" using b1 l2 by simp
  have f3: "\<forall>col vals. Inr (map (day_name w) col) = (Inr vals :: error + cell list)
              \<longrightarrow> length vals = length col"
    by auto
  from derive_spec [OF d(2) b2 r2 f3] obtain col3 vals3 where
    g3: "get_col (h2 ! df) ''Date'' = Inr col3"
    and v3: "Inr (map (day_name w) col3) = (Inr vals3 :: error + cell list)"
    and n3: "h3 ! df = set_col (h2 ! df) ''DayOfWeek'' vals3"
    and r3: "rectangular (h3 ! df)" and l3: "length h3 = length h2"
    and s3: "get_col (h3 ! df) ''DayOfWeek'' = Inr vals3"
    and o3: "\<forall>c. c \<noteq> ''DayOfWeek'' \<longrightarrow> get_col (h3 ! df) c = get_col (h2 ! df) c"
    by blast
  have c3: "col3 = parsed" using g3 s2 by simp
  have w3: "vals3 = map (day_name w) parsed" using v3 c3 by simp
  have b3: "df < length h3" using b2 l3 by simp
  have f4: "\<forall>col vals. Inr (to_datetime_coerce w col) = (Inr vals :: error + cell list)
              \<longrightarrow> length vals = length col"
    by (auto simp: to_datetime_coerce_length)
  from derive_spec [OF d(3) b3 r3 f4] obtain texts vals4 where
    g4: "get_col (h3 ! df) ''Time'' = Inr texts"
    and v4: "Inr (to_datetime_coerce w texts) = (Inr vals4 :: error + cell list)"
    and n4: "h4 ! df = set_col (h3 ! df) ''Time'' vals4"
    and r4: "rectangular (h4 ! df)" and l4: "length h4 = length h3"
    and s4: "get_col (h4 ! df) ''Time'' = Inr vals4"
    and o4: "\<forall>c. c \<noteq> ''Time'' \<longrightarrow> get_col (h4 ! df) c = get_col (h3 ! df) c"
    by blast
  have w4: "vals4 = to_datetime_coerce w texts" using v4 by simp
  have t1: "get_col (h1 ! df) ''Time'' = Inr texts" using g4 o3 o2 by simp
  have b4: "df < length h4" using b3 l4 by simp
  from derive_spec [OF d(4) b4 r4 astype_float_length] obtain speed sp where
    g5: "get_col (h4 ! df) ''Speed'' = Inr speed" and v5: "astype_float w speed = Inr sp"
    and n5: "h ! df = set_col (h4 ! df) ''Speed'' sp"
    and s5: "get_col (h ! df) ''Speed'' = Inr sp"
    and o5: "\<forall>c. c \<noteq> ''Speed'' \<longrightarrow> get_col (h ! df) c = get_col (h4 ! df) c"
    by blast
  have p1: "get_col (h1 ! df) ''Speed'' = Inr speed" using g5 o4 o3 o2 by simp
  have e: "h ! df = set_col (set_col (set_col (set_col (h1 ! df) ''Date'' parsed)
                   ''DayOfWeek'' (map (day_name w) parsed))
                   ''Time'' (to_datetime_coerce w texts)) ''Speed'' sp"
    unfolding n5 n4 n3 n2 w3 w4 by (rule refl)
  have q1: "get_col (h ! df) ''Date'' = Inr parsed" using o5 o4 o3 s2 by simp
  have q2: "get_col (h ! df) ''DayOfWeek'' = Inr (map (day_name w) parsed)"
    using o5 o4 s3 w3 by simp
  have q3: "get_col (h ! df) ''Time'' = Inr (to_datetime_coerce w texts)"
    using o5 s4 w4 by simp
  have q4: "\<forall>c. c \<notin> {''Date'', ''DayOfWeek'', ''Time'', ''Speed''}
           \<longrightarrow> get_col (h ! df) c = get_col (h1 ! df) c"
    using o5 o4 o3 o2 by simp
  from l g1 v1 t1 p1 v5 e q1 q2 q3 s5 q4 o show ?thesis by blast
qed

lemma home_assigns:
  assumes "home w h0 = Inr (df, (summary, out, locations), h)"
  shows "\<exists>h1 dates parsed.
      load_data w h0 = Inr (df, h1)
    \<and> get_col (h1 ! df) ''Date'' = Inr dates \<and> to_datetime_raise w dates = Inr parsed
    \<and> h ! df = set_col (set_col (h1 ! df) ''Date'' parsed)
                   ''DayOfWeek'' (map (day_name w) parsed)
    \<and> get_col (h ! df) ''Date'' = Inr parsed
    \<and> get_col (h ! df) ''DayOfWeek'' = Inr (map (day_name w) parsed)
    \<and> (\<forall>c. c \<notin> {''Date'', ''DayOfWeek''} \<longrightarrow> get_col (h ! df) c = get_col (h1 ! df) c)
    \<and> out = h ! df"
proof -
  from home_Inr [OF assms] obtain h1 h2 where
    l: "load_data w h0 = Inr (df, h1)"
    and d: "derive h1 df ''Date'' ''Date'' (to_datetime_raise w) = Inr h2"
       "derive h2 df ''Date'' ''DayOfWeek'' (\<lambda>c. Inr (map (day_name w) c)) = Inr h"
    and o: "out = h ! df"
    by blast
  note b1 = load_data_bound [OF l] and r1 = load_data_rectangular [OF l]
  from derive_spec [OF d(1) b1 r1 to_datetime_raise_length] obtain dates parsed where
    g1: "get_col (h1 ! df) ''Date'' = Inr dates" and v1: "to_datetime_raise w dates = Inr parsed"
    and n2: "h2 ! df = set_col (h1 ! df) ''Date'' parsed"
    and r2: "rectangular (h2 ! df)" and l2: "length h2 = length h1"
    and s2: "get_col (h2 ! df) ''Date'' = Inr parsed"
    and o2: "\<forall>c. c \<noteq> ''Date'' \<longrightarrow> get_col (h2 ! df) c = get_col (h1 ! df) c"
    by blast
  have b2: "df < length h2" using b1 l2 by simp
  have f3: "\<forall>col vals. Inr (map (day_name w) col) = (Inr vals :: error + cell list)
              \<longrightarrow> length vals = length col"
    by auto
  from derive_spec [OF d(2) b2 r2 f3] obtain col3 vals3 where
    g3: "get_col (h2 ! df) ''Date'' = Inr col3"
    and v3: "Inr (map (day_name w) col3) = (Inr vals3 :: error + cell list)"
    and n3: "h ! df = set_col (h2 ! df) ''DayOfWeek'' vals3"
    and s3: "get_col (h ! df) ''DayOfWeek'' = Inr vals3"
    and o3: "\<forall>c. c \<noteq> ''DayOfWeek'' \<longrightarrow> get_col (h ! df) c = get_col (h2 ! df) c"
    by blast
  have c3: "col3 = parsed" using g3 s2 by simp
  have w3: "vals3 = map (day_name w) parsed" using v3 c3 by simp
  have e: "h ! df = set_col (set_col (h1 ! df) ''Date'' parsed)
                   ''DayOfWeek'' (map (day_name w) parsed)"
    unfolding n3 n2 w3 by (rule refl)
  have q1: "get_col (h ! df) ''Date'' = Inr parsed" using o3 s2 by simp
  have q2: "get_col (h ! df) ''DayOfWeek'' = Inr (map (day_name w) parsed)"
    using s3 w3 by simp
  have q4: "\<forall>c. c \<notin> {''Date'', ''DayOfWeek''} \<longrightarrow> get_col (h ! df) c = get_col (h1 ! df) c"
    using o3 o2 by simp
  from l g1 v1 e q1 q2 q4 o show ?thesis by blast
qed

lemma speed_analysis_assigns:
  assumes "speed_analysis w h0 = Inr (df, out, h)"
  shows "\<exists>h1 speed sp. load_data w h0 = Inr (df, h1)
          \<and> get_col (h1 ! df) ''Speed'' = Inr speed \<and> astype_float w speed = Inr sp
          \<and> h ! df = set_col (h1 ! df) ''Speed'' sp
          \<and> get_col (h ! df) ''Speed'' = Inr sp
          \<and> (\<forall>c. c \<noteq> ''Speed'' \<longrightarrow> get_col (h ! df) c = get_col (h1 ! df) c)"
proof -
  from speed_analysis_Inr [OF assms] obtain h1 h2 s h3 where
    l: "load_data w h0 = Inr (df, h1)"
    and d: "derive h1 df ''Speed'' ''Speed'' (astype_float w) = Inr h2"
       "derive (h2 @ [s]) (length h2) ''Time'' ''Time''
            (\<lambda>c. Inr (to_datetime_coerce w c)) = Inr h3"
       "derive h3 (length h2) ''Speed'' ''Speed_Category''
            (\<lambda>c. Inr (map (\<lambda>v. Str (categorize_speed (float_of_cell v))) c)) = Inr h"
    by blast
  note b1 = load_data_bound [OF l] and r1 = load_data_rectangular [OF l]
  from derive_spec [OF d(1) b1 r1 astype_float_length] obtain speed sp where
    g: "get_col (h1 ! df) ''Speed'' = Inr speed" and a: "astype_float w speed = Inr sp"
    and n2: "h2 ! df = set_col (h1 ! df) ''Speed'' sp" and l2: "length h2 = length h1"
    and s2: "get_col (h2 ! df) ''Speed'' = Inr sp"
    and o2: "\<forall>c. c \<noteq> ''Speed'' \<longrightarrow> get_col (h2 ! df) c = get_col (h1 ! df) c"
    by blast
  have ne: "df \<noteq> length h2" using b1 l2 by simp
  have "h ! df = h3 ! df" using derive_other(2) [OF d(3) ne] .
  also have "\<dots> = (h2 @ [s]) ! df" using derive_other(2) [OF d(2) ne] .
  also have "\<dots> = h2 ! df" using b1 l2 by (simp add: nth_append)
  finally have e: "h ! df = h2 ! df" .
  from l g a n2 s2 o2 show ?thesis unfolding e by blast
qed

lemma correlation_keeps:
  assumes "correlation_analysis w h0 = Inr (df, (m, df1), h)"
  shows "\<exists>h1. load_data w h0 = Inr (df, h1) \<and> df1 \<noteq> df \<and> h ! df = h1 ! df"
proof -
  from correlation_analysis_Inr [OF assms] obtain h1 hp d where
    l: "load_data w h0 = Inr (df, h1)" and d1: "df1 = length h1"
    and p: "corr_prepare w (h1 @ [h1 ! df]) df1 = Inr hp"
    and h: "h = hp[df1 := d]"
    by blast
  have b: "df < length h1" by (rule load_data_bound [OF l])
  then have ne: "df \<noteq> df1" using d1 by simp
  have "hp ! df = (h1 @ [h1 ! df]) ! df"
    using corr_prepare_other [OF p] ne by blast
  then have "h ! df = h1 ! df"
    using b ne by (simp add: h nth_append)
  with l ne show ?thesis by blast
qed

lemma safety_keeps:
  assumes "load_data w h0 = Inr (df, h1)"
  shows "(h1 @ [f]) ! df = h1 ! df"
  using load_data_bound [OF assms] by (simp add: nth_append)

lemma corr_positions_bound:
  assumes "corr_positions w f = Inr js"
  shows "list_all (\<lambda>j. j < length (columns f)) js"
proof -
  from assms obtain flags where
    js: "js = map fst (filter snd (zip [0..<length (columns f)] flags))"
    unfolding corr_positions_def seq_eq_Inr by auto
  have "j < length (columns f)" if "j \<in> set js" for j
  proof -
    from that obtain b where "(j, b) \<in> set (zip [0..<length (columns f)] flags)"
      unfolding js by auto
    then have "j \<in> set [0..<length (columns f)]" by (rule set_zip_leftD)
    then show ?thesis by simp
  qed
  then show ?thesis by (simp add: list_all_iff)
qed

lemma pd_corr_Inr:
  assumes "pd_corr w f = Inr m"
  shows "\<exists>js. corr_positions w f = Inr js
     \<and> cm_index m = map (\<lambda>j. columns f ! j) js
     \<and> cm_columns m = map (\<lambda>j. columns f ! j) js
     \<and> cm_values m
        = map (\<lambda>i. map (\<lambda>j. pearson w (column_at f (js ! max i j)) (column_at f (js ! min i j)))
                       [0..<length js]) [0..<length js]"
proof -
  from assms obtain js where p: "corr_positions w f = Inr js"
    and m: "m = \<lparr>cm_index = map (\<lambda>j. columns f ! j) js,
                  cm_columns = map (\<lambda>j. columns f ! j) js,
                  cm_values = map (\<lambda>i. map (\<lambda>j. pearson w (map (column_at f) js ! max i j)
                                                         (map (column_at f) js ! min i j))
                                 [0..<length js]) [0..<length js]\<rparr>"
    unfolding pd_corr_def seq_eq_Inr Let_def by auto
  have "cm_values m
        = map (\<lambda>i. map (\<lambda>j. pearson w (column_at f (js ! max i j)) (column_at f (js ! min i j)))
                       [0..<length js]) [0..<length js]"
    unfolding m by simp
  with p m show ?thesis by simp
qed

lemma pd_corr_labels:
  assumes "pd_corr w f = Inr m"
  shows "cm_index m = cm_columns m" and "set (cm_index m) \<subseteq> set (columns f)"
proof -
  from pd_corr_Inr [OF assms] obtain js where p: "corr_positions w f = Inr js"
    and i: "cm_index m = map (\<lambda>j. columns f ! j) js"
    and c: "cm_columns m = map (\<lambda>j. columns f ! j) js"
    by blast
  show "cm_index m = cm_columns m" using i c by simp
  show "set (cm_index m) \<subseteq> set (columns f)"
    using corr_positions_bound [OF p] unfolding i by (auto simp: list_all_iff)
qed








section \<open>The safety subset\<close>

text \<open>
  C5. In both safety routes the frame \<open>safety_df\<close> has the columns of the loaded frame
  and exactly those of its rows, in their order, whose Alert is one of cas_ldw, cas_hmw,
  hard_brake, cas_pcw, cas_fcw: it is a part of the loaded dataset and holds no row
  with another Alert.
\<close>

theorem safety_subset:
  assumes "safety_impact w h0 = Inr (df, safety_df, h)
           \<or> safety_analysis w h0 = Inr (df, safety_df, h)"
  shows "\<exists>h1 j. load_data w h0 = Inr (df, h1)
     \<and> col_index (columns (h1 ! df)) ''Alert'' = Some j
     \<and> columns safety_df = columns (h1 ! df)
     \<and> rows safety_df
         = filter (\<lambda>r. cell_at r j \<in> {Str ''cas_ldw'', Str ''cas_hmw'', Str ''hard_brake'',
                                         Str ''cas_pcw'', Str ''cas_fcw''}) (rows (h1 ! df))
     \<and> set (rows safety_df) \<subseteq> set (rows (h1 ! df))
     \<and> list_all (\<lambda>r. cell_at r j \<in> {Str ''cas_ldw'', Str ''cas_hmw'', Str ''hard_brake'',
                                        Str ''cas_pcw'', Str ''cas_fcw''}) (rows safety_df)"
proof -
  from assms obtain h1 alert where l: "load_data w h0 = Inr (df, h1)"
    and a: "get_col (h1 ! df) ''Alert'' = Inr alert"
    and s: "safety_df = mask_rows (h1 ! df) (map (\<lambda>c. isin c safety_alerts) alert)"
    using safety_impact_Inr [of w h0 df safety_df h] safety_analysis_Inr [of w h0 df safety_df h]
    by blast
  from safety_df_spec [OF l a s] l show ?thesis by blast
qed

theorem safety_subset_witness:
  "safety_impact example_world []
     = Inr (0, \<lparr>columns = schema, rows = [example_row 3]\<rparr>,
            [\<lparr>columns = schema, rows = [example_row 107, example_row 3]\<rparr>,
             \<lparr>columns = schema, rows = [example_row 3]\<rparr>])
   \<and> col_index schema ''Alert'' = Some 0
   \<and> cell_at (example_row 3) 0 = Str ''cas_ldw''
   \<and> cell_at (example_row 107) 0 = Str ''overspeed''"
proof -
  have run: "safety_impact example_world []
     = Inr (0, \<lparr>columns = schema, rows = [example_row 3]\<rparr>,
            [\<lparr>columns = schema, rows = [example_row 107, example_row 3]\<rparr>,
             \<lparr>columns = schema, rows = [example_row 3]\<rparr>])"
    by (simp add: safety_impact_def example_load get_col_def column_at_def schema_def
        cell_at_def example_row_def mask_rows_def isin_def alloc_def px_requires_def)
  from safety_subset [OF disjI1 [OF run]] run show ?thesis
    by (simp add: schema_def cell_at_def example_row_def)
qed

section \<open>The coordinates route\<close>



section \<open>The handlers on the example\<close>

lemmas frame_eval =
  derive_def assign_def get_col_def column_at_def set_col_def cell_at_def schema_def
  example_row_def to_datetime_raise_def to_datetime_coerce_def astype_float_def
  example_loaded_def alloc_def px_requires_def

lemma example_world_sel:
  "to_datetime example_world = (\<lambda>col. example_parse)"
  "day_name example_world = (\<lambda>c. if c = Ts 19144 then Str ''Wednesday'' else NA)"
  "hour example_world = (\<lambda>c. if is_ts c then Num 0 else NA)"
  "categories example_world = (\<lambda>col.
       if col = [Str ''overspeed'', Str ''cas_ldw'']
       then [Str ''cas_ldw'', Str ''overspeed''] else remdups col)"
  "float_of_str example_world = (\<lambda>s. None)"
  "argsort example_world = (\<lambda>ks. sort_key (\<lambda>i. text_of (ks ! i)) [0..<length ks])"
  "series_mean example_world = (\<lambda>col. Inr (example_mean col))"
  "describe example_world = (\<lambda>df. Inr ''summary'')"
  "corr_takes example_world = (\<lambda>col. Inr (list_all (\<lambda>c. is_num c \<or> c = NA) col))"
  "corr_float example_world = number_of"
  "fp_corr example_world = exact_pearson"
  by (simp_all add: example_world_def)

lemma example_load0: "load_data example_world [] = Inr (0, [example_loaded])"
  using example_load [of "[]"] by (simp add: example_loaded_def)

lemma example_spatial:
  "spatial_analysis example_world []
   = Inr (0, (example_loaded, Num 12.625, Num 77.375), [example_loaded])"
  by (simp add: spatial_analysis_def example_load0 frame_eval example_world_sel
      example_mean_def List.map_filter_simps)

lemma example_driver:
  "driver_behavior example_world []
   = Inr (0, [Str ''overspeed'', Str ''cas_ldw''], [example_loaded])"
  by (simp add: driver_behavior_def example_load0 frame_eval)

lemma example_safety_impact:
  "safety_impact example_world [] = Inr (0, example_safety, [example_loaded, example_safety])"
  by (simp add: safety_impact_def example_load0 frame_eval mask_rows_def isin_def
      example_safety_def)

lemma example_safety_analysis:
  "safety_analysis example_world [] = Inr (0, example_safety, [example_loaded, example_safety])"
  by (simp add: safety_analysis_def example_load0 frame_eval mask_rows_def isin_def
      example_safety_def safety_alerts_def)

lemma example_coordinates:
  "get_coordinates example_world [] = Inr (0, example_records, [example_loaded])"
  by (simp add: get_coordinates_def example_load0 coord_record_def field_or_def row_get_def
      notna_def frame_eval example_records_def)

lemma example_alert_frequency:
  "alert_frequency example_world [] = Inr (0, example_dated, [example_dated])"
  by (simp add: alert_frequency_def example_load0 frame_eval example_world_sel
      example_dated_def)

lemma example_home:
  "home example_world []
   = Inr (0, (''summary'', example_home_frame, example_locations), [example_home_frame])"
  by (simp add: home_def example_load0 frame_eval example_world_sel location_def row_get_def
      example_home_frame_def example_locations_def example_mean_def List.map_filter_simps)

lemma example_speed_analysis:
  "speed_analysis example_world [] = Inr (0, example_sorted, [example_loaded, example_sorted])"
  by (simp add: speed_analysis_def example_load0 frame_eval example_world_sel
      sort_values_def comparable_def take_rows_def sort_key_def
      categorize_speed_def Let_def example_sorted_def)

lemma example_corr_prepare:
  "corr_prepare example_world [example_loaded, example_loaded] 1
   = Inr [example_loaded,
          \<lparr>columns = [''Alert'', ''Date'', ''Time'', ''Lat'', ''Long'', ''Vehicle'',
                       ''Speed'', ''DayOfWeek'', ''HourOfDay''],
            rows = [[Num 1, Num 0, Ts 36900, Num 12.75, Num 77.5, Num 107, Num 59.9,
                     Num 0, Num 0],
                    [Num 0, Num 0, Ts 34200, Num 12.5, Num 77.25, Num 3, Num 85,
                     Num 0, Num 0]]\<rparr>]"
  by (simp add: corr_prepare_def frame_eval example_world_sel cat_codes_def)

lemma example_corr_positions:
  "corr_positions example_world example_coded = Inr [0, 1, 3, 4, 5, 6, 7]"
  by (simp add: corr_positions_def example_coded_def column_at_def cell_at_def
      example_world_sel upt_rec_numeral)

lemma example_pd_corr: "pd_corr example_world example_coded = Inr example_matrix"
proof -
  have c: "map (column_at example_coded) [0, 1, 3, 4, 5, 6, 7] = example_columns"
    by (simp add: example_columns_def example_coded_def column_at_def cell_at_def)
  have l: "map (\<lambda>j. columns example_coded ! j) [0, 1, 3, 4, 5, 6, 7]
           = [''Alert'', ''Date'', ''Lat'', ''Long'', ''Vehicle'', ''Speed'', ''DayOfWeek'']"
    by (simp add: example_coded_def)
  have n: "length [0, 1, 3, 4, 5, 6, 7 :: nat] = 7" by simp
  show ?thesis
    unfolding pd_corr_def example_corr_positions seq_Inr Let_def c l n example_matrix_def
    by (rule refl)
qed

lemma example_correlation:
  "correlation_analysis example_world []
   = Inr (0, (example_matrix, 1), [example_loaded, example_coded])"
proof -
  have d: "drop_col \<lparr>columns = [''Alert'', ''Date'', ''Time'', ''Lat'', ''Long'', ''Vehicle'',
                       ''Speed'', ''DayOfWeek'', ''HourOfDay''],
            rows = [[Num 1, Num 0, Ts 36900, Num 12.75, Num 77.5, Num 107, Num 59.9,
                     Num 0, Num 0],
                    [Num 0, Num 0, Ts 34200, Num 12.5, Num 77.25, Num 3, Num 85,
                     Num 0, Num 0]]\<rparr> ''HourOfDay'' = Inr example_coded"
    by (simp add: drop_col_def cell_at_def example_coded_def)
  from d show ?thesis
    by (simp add: correlation_analysis_def example_load0 alloc_def
      example_corr_prepare [unfolded One_nat_def] example_pd_corr)
qed




section \<open>The loaded frame and the handlers\<close>

text \<open>
  C9. The claim, no handler changes the frame \<open>load_data\<close> returned, does not hold:
  after \<open>/alert-frequency\<close> the object that \<open>load_data\<close> returned holds parsed dates and
  times and a DayOfWeek column it did not hold when it was loaded.
\<close>

theorem loaded_frame_counterexample:
  "load_data example_world [] = Inr (0, [example_loaded])
   \<and> alert_frequency example_world [] = Inr (0, example_dated, [example_dated])
   \<and> [example_dated] ! 0 \<noteq> [example_loaded] ! 0
   \<and> columns example_loaded = schema
   \<and> columns example_dated = schema @ [''DayOfWeek'']"
  using example_load0 example_alert_frequency
  by (simp add: example_loaded_def example_dated_def)

text \<open>
  C9, as amended. The frame \<open>load_data\<close> returned is left as loaded by the handlers that
  only read it (\<open>/spatial-analysis\<close>, \<open>/driver-behavior\<close>, \<open>/safety-impact\<close>,
  \<open>/safety_analysis\<close>, \<open>/data/coordinates\<close>) and by \<open>/correlation-analysis\<close>, which
  works on a copy at another address. The other three handlers assign to the loaded
  object itself. After \<open>/alert-frequency\<close> it is the loaded frame with Date replaced by
  the parsed dates, DayOfWeek set to their day names, Time replaced by the coerced
  timestamps of the loaded Time column and Speed by the floats of the loaded Speed
  column; after \<open>/\<close> it is the loaded frame with Date replaced by the parsed dates and
  DayOfWeek set to their day names; after \<open>/speed-analysis\<close> it is the loaded frame with
  Speed replaced by its floats. Every other column reads as it did when loaded, and the
  changed object is the frame behind the charts of \<open>/alert-frequency\<close> and \<open>/\<close>.
\<close>

theorem loaded_frame_kept:
  "(spatial_analysis w h0 = Inr (df, out1, h)
      \<longrightarrow> (\<exists>h1. load_data w h0 = Inr (df, h1) \<and> h ! df = h1 ! df))
   \<and> (driver_behavior w h0 = Inr (df, out2, h)
      \<longrightarrow> (\<exists>h1. load_data w h0 = Inr (df, h1) \<and> h ! df = h1 ! df))
   \<and> (safety_impact w h0 = Inr (df, out3, h)
      \<longrightarrow> (\<exists>h1. load_data w h0 = Inr (df, h1) \<and> h ! df = h1 ! df))
   \<and> (safety_analysis w h0 = Inr (df, out4, h)
      \<longrightarrow> (\<exists>h1. load_data w h0 = Inr (df, h1) \<and> h ! df = h1 ! df))
   \<and> (get_coordinates w h0 = Inr (df, out5, h)
      \<longrightarrow> (\<exists>h1. load_data w h0 = Inr (df, h1) \<and> h ! df = h1 ! df))
   \<and> (correlation_analysis w h0 = Inr (df, (m, df1), h)
      \<longrightarrow> (\<exists>h1. load_data w h0 = Inr (df, h1) \<and> df1 \<noteq> df \<and> h ! df = h1 ! df))
   \<and> (alert_frequency w h0 = Inr (df, out7, h)
      \<longrightarrow> (\<exists>h1 dates parsed texts speed sp.
             load_data w h0 = Inr (df, h1)
           \<and> get_col (h1 ! df) ''Date'' = Inr dates
           \<and> to_datetime_raise w dates = Inr parsed
           \<and> get_col (h1 ! df) ''Time'' = Inr texts
           \<and> get_col (h1 ! df) ''Speed'' = Inr speed \<and> astype_float w speed = Inr sp
           \<and> h ! df = set_col (set_col (set_col (set_col (h1 ! df) ''Date'' parsed)
                          ''DayOfWeek'' (map (day_name w) parsed))
                          ''Time'' (to_datetime_coerce w texts)) ''Speed'' sp
           \<and> get_col (h ! df) ''Date'' = Inr parsed
           \<and> get_col (h ! df) ''DayOfWeek'' = Inr (map (day_name w) parsed)
           \<and> get_col (h ! df) ''Time'' = Inr (to_datetime_coerce w texts)
           \<and> get_col (h ! df) ''Speed'' = Inr sp
           \<and> (\<forall>c. c \<notin> {''Date'', ''DayOfWeek'', ''Time'', ''Speed''}
                  \<longrightarrow> get_col (h ! df) c = get_col (h1 ! df) c)
           \<and> out7 = h ! df))
   \<and> (home w h0 = Inr (df, (summary, out8, locations), h)
      \<longrightarrow> (\<exists>h1 dates parsed.
             load_data w h0 = Inr (df, h1)
           \<and> get_col (h1 ! df) ''Date'' = Inr dates
           \<and> to_datetime_raise w dates = Inr parsed
           \<and> h ! df = set_col (set_col (h1 ! df) ''Date'' parsed)
                          ''DayOfWeek'' (map (day_name w) parsed)
           \<and> get_col (h ! df) ''Date'' = Inr parsed
           \<and> get_col (h ! df) ''DayOfWeek'' = Inr (map (day_name w) parsed)
           \<and> (\<forall>c. c \<notin> {''Date'', ''DayOfWeek''}
                  \<longrightarrow> get_col (h ! df) c = get_col (h1 ! df) c)
           \<and> out8 = h ! df))
   \<and> (speed_analysis w h0 = Inr (df, out9, h)
      \<longrightarrow> (\<exists>h1 speed sp. load_data w h0 = Inr (df, h1)
             \<and> get_col (h1 ! df) ''Speed'' = Inr speed \<and> astype_float w speed = Inr sp
             \<and> h ! df = set_col (h1 ! df) ''Speed'' sp
             \<and> get_col (h ! df) ''Speed'' = Inr sp
             \<and> (\<forall>c. c \<noteq> ''Speed'' \<longrightarrow> get_col (h ! df) c = get_col (h1 ! df) c)))"
proof -
  have 1: "\<exists>h1. load_data w h0 = Inr (df, h1) \<and> h ! df = h1 ! df"
    if "spatial_analysis w h0 = Inr (df, out1, h)"
    using spatial_analysis_Inr [OF that] by blast
  have 2: "\<exists>h1. load_data w h0 = Inr (df, h1) \<and> h ! df = h1 ! df"
    if "driver_behavior w h0 = Inr (df, out2, h)"
    using driver_behavior_Inr [OF that] by blast
  have 3: "\<exists>h1. load_data w h0 = Inr (df, h1) \<and> h ! df = h1 ! df"
    if "safety_impact w h0 = Inr (df, out3, h)"
  proof -
    from safety_impact_Inr [OF that] obtain h1 where
      l: "load_data w h0 = Inr (df, h1)" and h: "h = h1 @ [out3]"
      by blast
    from l safety_keeps [OF l, of out3] show ?thesis unfolding h by blast
  qed
  have 4: "\<exists>h1. load_data w h0 = Inr (df, h1) \<and> h ! df = h1 ! df"
    if "safety_analysis w h0 = Inr (df, out4, h)"
  proof -
    from safety_analysis_Inr [OF that] obtain h1 where
      l: "load_data w h0 = Inr (df, h1)" and h: "h = h1 @ [out4]"
      by blast
    from l safety_keeps [OF l, of out4] show ?thesis unfolding h by blast
  qed
  have 5: "\<exists>h1. load_data w h0 = Inr (df, h1) \<and> h ! df = h1 ! df"
    if "get_coordinates w h0 = Inr (df, out5, h)"
    using get_coordinates_Inr [OF that] by blast
  note 6 = correlation_keeps [of w h0 df m df1 h]
  note 7 = alert_frequency_assigns [of w h0 df out7 h]
  note 8 = home_assigns [of w h0 df summary out8 locations h]
  note 9 = speed_analysis_assigns [of w h0 df out9 h]
  from 1 2 3 4 5 6 7 8 9 show ?thesis
    by (intro conjI impI)
qed

theorem loaded_frame_kept_witness:
  "spatial_analysis example_world []
       = Inr (0, (example_loaded, Num 12.625, Num 77.375), [example_loaded])
   \<and> driver_behavior example_world []
       = Inr (0, [Str ''overspeed'', Str ''cas_ldw''], [example_loaded])
   \<and> safety_impact example_world []
       = Inr (0, example_safety, [example_loaded, example_safety])
   \<and> safety_analysis example_world []
       = Inr (0, example_safety, [example_loaded, example_safety])
   \<and> get_coordinates example_world [] = Inr (0, example_records, [example_loaded])
   \<and> correlation_analysis example_world []
       = Inr (0, (example_matrix, 1), [example_loaded, example_coded])
   \<and> alert_frequency example_world [] = Inr (0, example_dated, [example_dated])
   \<and> home example_world []
       = Inr (0, (''summary'', example_home_frame, example_locations), [example_home_frame])
   \<and> speed_analysis example_world []
       = Inr (0, example_sorted, [example_loaded, example_sorted])
   \<and> load_data example_world [] = Inr (0, [example_loaded])
   \<and> [example_loaded, example_coded] ! 0 = example_loaded
   \<and> get_col example_loaded ''Date'' = Inr [Str ''2022-06-01'', Str ''2022-06-01'']
   \<and> get_col example_dated ''Date'' = Inr [Ts 19144, Ts 19144]
   \<and> get_col example_dated ''DayOfWeek'' = Inr [Str ''Wednesday'', Str ''Wednesday'']
   \<and> get_col example_dated ''Time'' = Inr [Ts 36900, Ts 34200]
   \<and> get_col example_home_frame ''Date'' = Inr [Ts 19144, Ts 19144]
   \<and> get_col example_home_frame ''Time'' = Inr [Str ''10:15:00'', Str ''9:30:00'']"
proof -
  have g: "get_col example_loaded ''Date'' = Inr [Str ''2022-06-01'', Str ''2022-06-01'']"
    "get_col example_dated ''Date'' = Inr [Ts 19144, Ts 19144]"
    "get_col example_dated ''DayOfWeek'' = Inr [Str ''Wednesday'', Str ''Wednesday'']"
    "get_col example_dated ''Time'' = Inr [Ts 36900, Ts 34200]"
    "get_col example_home_frame ''Date'' = Inr [Ts 19144, Ts 19144]"
    "get_col example_home_frame ''Time'' = Inr [Str ''10:15:00'', Str ''9:30:00'']"
    by (simp_all add: get_col_def column_at_def cell_at_def example_loaded_def schema_def
        example_row_def example_dated_def example_home_frame_def)
  show ?thesis
    using loaded_frame_kept [of example_world "[]" 0
        "(example_loaded, Num 12.625, Num 77.375)" "[example_loaded]"
        "[Str ''overspeed'', Str ''cas_ldw'']" _ _ example_records]
      loaded_frame_kept [of example_world "[]" 0 _ "[example_loaded, example_safety]" _
        example_safety example_safety]
      loaded_frame_kept [of example_world "[]" 0 _ "[example_loaded, example_coded]" _ _ _ _
        example_matrix 1]
      loaded_frame_kept [of example_world "[]" 0 _ "[example_dated]" _ _ _ _ _ _
        example_dated]
      loaded_frame_kept [of example_world "[]" 0 _ "[example_home_frame]" _ _ _ _ _ _ _
        "''summary''" example_home_frame example_locations]
      loaded_frame_kept [of example_world "[]" 0 _ "[example_loaded, example_sorted]"
        _ _ _ _ _ _ _ _ _ _ example_sorted]
      example_spatial example_driver example_safety_impact example_safety_analysis
      example_coordinates example_correlation example_alert_frequency example_home
      example_speed_analysis example_load0 g
    by simp
qed

section \<open>The HourOfDay column\<close>

text \<open>
  C7. \<open>/correlation-analysis\<close> derives an HourOfDay column on its copy of the loaded
  frame, the category codes of the hours of the parsed Date column, and drops it before
  correlating: neither the copy it correlates nor the index or the columns of the
  returned matrix carry the label HourOfDay.
\<close>

theorem hour_of_day_dropped:
  assumes "correlation_analysis w h0 = Inr (df, (m, df1), h)"
  shows "''HourOfDay'' \<notin> set (cm_index m) \<and> ''HourOfDay'' \<notin> set (cm_columns m)
    \<and> ''HourOfDay'' \<notin> set (columns (h ! df1))
    \<and> pd_corr w (h ! df1) = Inr m
    \<and> (\<exists>h1 hp dates parsed.
          load_data w h0 = Inr (df, h1)
        \<and> corr_prepare w (h1 @ [h1 ! df]) df1 = Inr hp
        \<and> get_col (h1 ! df) ''Date'' = Inr dates
        \<and> to_datetime_raise w dates = Inr parsed
        \<and> get_col (hp ! df1) ''HourOfDay'' = Inr (cat_codes w (map (hour w) parsed))
        \<and> drop_col (hp ! df1) ''HourOfDay'' = Inr (h ! df1))"
proof -
  from correlation_analysis_Inr [OF assms] obtain h1 hp d where
    l: "load_data w h0 = Inr (df, h1)" and d1: "df1 = length h1"
    and p: "corr_prepare w (h1 @ [h1 ! df]) df1 = Inr hp"
    and dr: "drop_col (hp ! df1) ''HourOfDay'' = Inr d"
    and h: "h = hp[df1 := d]" and lp: "length hp = Suc (length h1)"
    and m: "pd_corr w d = Inr m"
    by blast
  have hd: "h ! df1 = d" using h d1 lp by simp
  have no: "''HourOfDay'' \<notin> set (columns d)" by (rule drop_col_columns [OF dr])
  have a: "df1 < length (h1 @ [h1 ! df])" using d1 by simp
  have "(h1 @ [h1 ! df]) ! df1 = h1 ! df" using d1 by simp
  then have r: "rectangular ((h1 @ [h1 ! df]) ! df1)"
    using load_data_rectangular [OF l] by simp
  from corr_prepare_hour [OF p a r] obtain dates parsed where
    "get_col ((h1 @ [h1 ! df]) ! df1) ''Date'' = Inr dates"
    "to_datetime_raise w dates = Inr parsed"
    "get_col (hp ! df1) ''HourOfDay'' = Inr (cat_codes w (map (hour w) parsed))"
    by blast
  then have e: "\<exists>h1 hp dates parsed.
          load_data w h0 = Inr (df, h1)
        \<and> corr_prepare w (h1 @ [h1 ! df]) df1 = Inr hp
        \<and> get_col (h1 ! df) ''Date'' = Inr dates
        \<and> to_datetime_raise w dates = Inr parsed
        \<and> get_col (hp ! df1) ''HourOfDay'' = Inr (cat_codes w (map (hour w) parsed))
        \<and> drop_col (hp ! df1) ''HourOfDay'' = Inr (h ! df1)"
    using l p dr hd d1 by auto
  have "''HourOfDay'' \<notin> set (cm_index m)" "''HourOfDay'' \<notin> set (cm_columns m)"
    using no pd_corr_labels [OF m] by auto
  then show ?thesis using no hd m e by simp
qed

theorem hour_of_day_dropped_witness:
  "correlation_analysis example_world []
     = Inr (0, (example_matrix, 1), [example_loaded, example_coded])
   \<and> ''HourOfDay'' \<notin> set (cm_index example_matrix)
   \<and> ''HourOfDay'' \<notin> set (cm_columns example_matrix)
   \<and> ''HourOfDay'' \<notin> set (columns example_coded)
   \<and> pd_corr example_world example_coded = Inr example_matrix"
  using hour_of_day_dropped [OF example_correlation] example_correlation by simp

section \<open>The correlation matrix\<close>




section \<open>Row order in the speed analysis\<close>

text \<open>
  C10. In \<open>/speed-analysis\<close> the rows are ordered by the Time column as loaded, raw text,
  and Time is parsed only afterwards. When the loaded Time cells are text and \<open>argsort\<close>
  returns a sorting permutation of them, the Time column behind the charts is the
  coercion, position by position, of the raw texts in lexicographic order (NaT where a
  text does not parse), and the Speed column follows the same permutation.
\<close>

theorem speed_analysis_raw_time_order:
  assumes run: "speed_analysis w h0 = Inr (df, out, h)"
    and load: "load_data w h0 = Inr (df, h1)"
    and tm: "get_col (h1 ! df) ''Time'' = Inr texts"
    and str: "list_all is_str texts"
    and perm: "mset (argsort w texts) = mset [0..<length texts]"
    and srt: "sorted (map (\<lambda>i. text_of (texts ! i)) (argsort w texts))"
  shows "\<exists>raw speed sp.
      raw = map (\<lambda>i. texts ! i) (argsort w texts)
    \<and> mset raw = mset texts
    \<and> sorted (map text_of raw)
    \<and> get_col out ''Time'' = Inr (to_datetime_coerce w raw)
    \<and> get_col (h1 ! df) ''Speed'' = Inr speed
    \<and> astype_float w speed = Inr sp
    \<and> get_col out ''Speed'' = Inr (map (\<lambda>i. sp ! i) (argsort w texts))"
proof -
  from speed_analysis_Inr [OF run] obtain h1' h2 s h3 where
    l': "load_data w h0 = Inr (df, h1')"
    and d1: "derive h1 df ''Speed'' ''Speed'' (astype_float w) = Inr h2"
    and sv: "sort_values w (h2 ! df) ''Time'' = Inr s"
    and d2: "derive (h2 @ [s]) (length h2) ''Time'' ''Time''
            (\<lambda>c. Inr (to_datetime_coerce w c)) = Inr h3"
    and d3: "derive h3 (length h2) ''Speed'' ''Speed_Category''
            (\<lambda>c. Inr (map (\<lambda>v. Str (categorize_speed (float_of_cell v))) c)) = Inr h"
    and out: "out = h ! length h2"
    using load by auto
  define p where "p = argsort w texts"
  have b: "df < length h1" by (rule load_data_bound [OF load])
  have r: "rectangular (h1 ! df)" by (rule load_data_rectangular [OF load])
  from derive_spec [OF d1 b r astype_float_length] obtain speed sp where
    speed: "get_col (h1 ! df) ''Speed'' = Inr speed" and sp: "astype_float w speed = Inr sp"
    and r2: "rectangular (h2 ! df)"
    and g2: "get_col (h2 ! df) ''Speed'' = Inr sp"
    and o2: "\<forall>c. c \<noteq> ''Speed'' \<longrightarrow> get_col (h2 ! df) c = get_col (h1 ! df) c"
    by blast
  have t2: "get_col (h2 ! df) ''Time'' = Inr texts" using o2 tm by simp
  have tk: "take_rows (h2 ! df) p = Inr s"
    unfolding p_def by (rule sort_values_text [OF t2 str sv])
  have st: "get_col s ''Time'' = Inr (map (\<lambda>i. texts ! i) p)"
    by (rule take_rows_column [OF tk t2])
  have ss: "get_col s ''Speed'' = Inr (map (\<lambda>i. sp ! i) p)"
    by (rule take_rows_column [OF tk g2])
  have rs: "rectangular s" by (rule take_rows_rectangular [OF tk r2])
  have a: "length h2 < length (h2 @ [s])" by simp
  have rs': "rectangular ((h2 @ [s]) ! length h2)" using rs by simp
  from derive_map_spec [OF d2 a rs' to_datetime_coerce_length] obtain col where
    c3: "get_col ((h2 @ [s]) ! length h2) ''Time'' = Inr col"
    and r3: "rectangular (h3 ! length h2)" and l3: "length h3 = length (h2 @ [s])"
    and g3: "get_col (h3 ! length h2) ''Time'' = Inr (to_datetime_coerce w col)"
    and o3: "\<forall>c. c \<noteq> ''Time'' \<longrightarrow>
               get_col (h3 ! length h2) c = get_col ((h2 @ [s]) ! length h2) c"
    by blast
  have col: "col = map (\<lambda>i. texts ! i) p" using c3 st by simp
  have s3: "get_col (h3 ! length h2) ''Speed'' = Inr (map (\<lambda>i. sp ! i) p)"
    using o3 ss by simp
  have a3: "length h2 < length h3" using l3 by simp
  from derive_map_spec [OF d3 a3 r3 length_map] have
    o4: "\<forall>c. c \<noteq> ''Speed_Category'' \<longrightarrow>
               get_col (h ! length h2) c = get_col (h3 ! length h2) c"
    by blast
  have time: "get_col out ''Time'' = Inr (to_datetime_coerce w (map (\<lambda>i. texts ! i) p))"
    unfolding out using o4 g3 col by simp
  have spd: "get_col out ''Speed'' = Inr (map (\<lambda>i. sp ! i) p)"
    unfolding out using o4 s3 by simp
  have m: "mset (map (\<lambda>i. texts ! i) p) = mset texts"
    unfolding p_def by (rule permuted_column [OF perm])
  have so: "sorted (map text_of (map (\<lambda>i. texts ! i) p))"
    using srt by (simp add: p_def o_def)
  from m so time speed sp spd show ?thesis
    unfolding p_def by blast
qed

theorem speed_analysis_raw_time_order_witness:
  "speed_analysis example_world [] = Inr (0, example_sorted, [example_loaded, example_sorted])
   \<and> get_col example_loaded ''Time'' = Inr [Str ''10:15:00'', Str ''9:30:00'']
   \<and> argsort example_world [Str ''10:15:00'', Str ''9:30:00''] = [0, 1]
   \<and> (''10:15:00'' :: string) < ''9:30:00''
   \<and> get_col example_sorted ''Time'' = Inr [Ts 36900, Ts 34200]
   \<and> get_col example_sorted ''Speed'' = Inr [Num 59.9, Num 85]"
proof -
  have tm: "get_col ([example_loaded] ! 0) ''Time'' = Inr [Str ''10:15:00'', Str ''9:30:00'']"
    by (simp add: frame_eval)
  have str: "list_all is_str [Str ''10:15:00'', Str ''9:30:00'']"
    by simp
  have p: "argsort example_world [Str ''10:15:00'', Str ''9:30:00''] = [0, 1]"
    by (simp add: example_world_sel sort_key_def)
  have perm: "mset (argsort example_world [Str ''10:15:00'', Str ''9:30:00''])
              = mset [0..<length [Str ''10:15:00'', Str ''9:30:00'']]"
    by (simp add: p)
  have srt: "sorted (map (\<lambda>i. text_of ([Str ''10:15:00'', Str ''9:30:00''] ! i))
               (argsort example_world [Str ''10:15:00'', Str ''9:30:00'']))"
    by (simp add: p)
  have sp: "get_col ([example_loaded] ! 0) ''Speed'' = Inr [Num 59.9, Num 85]"
    by (simp add: frame_eval)
  from speed_analysis_raw_time_order [OF example_speed_analysis example_load0 tm str perm srt]
  show ?thesis
    using example_speed_analysis tm p sp
    by (auto simp: to_datetime_coerce_def example_world_sel astype_float_def)
qed

end
